theory Spec2Isabelle
  imports Main "HOL-Library.Word"
begin

section \<open>The backing file\<close>

text \<open>
  The reader works on a file descriptor of a regular file. The descriptor is modelled by
  the bytes of the file, the current offset, and the list of system calls made on it so
  far, so that ``no I/O was performed'' is a statement about the state. Storage failures
  (EIO and the like) are outside the model: \<open>lseek\<close> fails exactly when the resulting
  offset is negative or does not fit \<open>off_t\<close>, and a read returns the bytes that are
  there.
\<close>

type_synonym byte = "8 word"
type_synonym u64 = "64 word"

datatype whence = SEEK_SET | SEEK_CUR | SEEK_END

datatype io_event = Lseek int whence | Read nat

record fd_state =
  fd_data :: "byte list"
  fd_pos :: nat
  fd_log :: "io_event list"

definition lseek :: "fd_state \<Rightarrow> int \<Rightarrow> whence \<Rightarrow> int \<times> fd_state" where
  "lseek fd off wh =
     (let base = (case wh of SEEK_SET \<Rightarrow> 0
                           | SEEK_CUR \<Rightarrow> int (fd_pos fd)
                           | SEEK_END \<Rightarrow> int (length (fd_data fd)));
          new = base + off;
          fd' = fd\<lparr>fd_log := fd_log fd @ [Lseek off wh]\<rparr>
      in if new < 0 \<or> 2 ^ 63 \<le> new then (- 1, fd')
         else (new, fd'\<lparr>fd_pos := nat new\<rparr>))"

text \<open>\<open>::read(fd, buffer, len)\<close>: the bytes from the current offset, at most \<open>len\<close>.\<close>

definition read :: "fd_state \<Rightarrow> nat \<Rightarrow> byte list \<times> fd_state" where
  "read fd n =
     (let bs = take n (drop (fd_pos fd) (fd_data fd))
      in (bs, fd\<lparr>fd_pos := fd_pos fd + length bs, fd_log := fd_log fd @ [Read n]\<rparr>))"

text \<open>
  \<open>android::base::ReadFully\<close> reads until \<open>n\<close> bytes have arrived and returns false
  at end of file; the bytes that did arrive are in the buffer either way.
\<close>

definition ReadFully :: "fd_state \<Rightarrow> nat \<Rightarrow> bool \<times> byte list \<times> fd_state" where
  "ReadFully fd n = (let (bs, fd') = read fd n in (length bs = n, bs, fd'))"

section \<open>The on-disk format\<close>

text \<open>
  The structs \<open>CowHeader\<close>, \<open>CowOperation\<close>, \<open>CowFooterOperation\<close> and
  \<open>CowFooterData\<close>, the constants \<open>kCow...\<close> and the function \<open>GetNextOpOffset\<close>
  are declared in the format header, which \<open>cow_reader.cpp\<close> only includes. They are
  parameters of the model, collected in a \<open>cow_format\<close>: the constants, the sizes of
  the structs, how the fields used by the reader are laid out in the bytes of a struct,
  and \<open>GetNextOpOffset\<close>. A struct in memory is the list of its bytes; reading a field
  decodes it. The metadata part of the footer has the size of an operation record (the
  reader copies one over the other with \<open>memcpy\<close>).

  The last parameter belongs to the C++ library rather than to the format:
  \<open>reserve_returns n\<close> tells whether \<open>std::vector<CowOperation>::reserve(n)\<close> on an
  empty vector returns. It does not when \<open>n\<close> exceeds \<open>max_size()\<close>
  (\<open>std::length_error\<close>) or when the memory for \<open>n\<close> records cannot be had
  (\<open>std::bad_alloc\<close>); which numbers those are depends on the library and the machine.
\<close>

record CowHeader =
  magic :: nat
  major_version :: nat
  minor_version :: nat
  header_size :: nat
  footer_size :: nat
  block_size :: nat
  num_merge_ops :: nat

record CowOperation =
  type :: nat
  compression :: nat
  data_length :: nat
  source :: u64

record CowFooterOperation =
  ftype :: nat
  ops_size :: nat
  num_ops :: nat

record CowFooterData =
  footer_checksum :: "byte list"
  ops_checksum :: "byte list"

record cow_format =
  kCowMagicNumber :: nat
  kCowVersionMajor :: nat
  kCowVersionMinor :: nat
  kCowLabelOp :: nat
  kCowFooterOp :: nat
  kCowCompressNone :: nat
  kCowCompressGz :: nat
  kCowCompressBrotli :: nat
  sizeof_CowHeader :: nat
  sizeof_CowOperation :: nat
  sizeof_CowFooterData :: nat
  as_CowHeader :: "byte list \<Rightarrow> CowHeader"
  as_CowOperation :: "byte list \<Rightarrow> CowOperation"
  as_CowFooterOperation :: "byte list \<Rightarrow> CowFooterOperation"
  as_CowFooterData :: "byte list \<Rightarrow> CowFooterData"
  GetNextOpOffset :: "CowOperation \<Rightarrow> int"
  reserve_returns :: "nat \<Rightarrow> bool"

definition sizeof_CowFooter :: "cow_format \<Rightarrow> nat" where
  "sizeof_CowFooter fmt = sizeof_CowOperation fmt + sizeof_CowFooterData fmt"

section \<open>Failures\<close>

text \<open>
  Every \<open>return false\<close> of the source is a value named after the message logged
  before it. \<open>MergeOpsCheckFailed\<close> and \<open>NotDoneCheckFailed\<close> are the aborts of a
  failed \<open>CHECK\<close>; \<open>ReadPastEnd\<close> marks a read of a vector element at an index that
  is not below its size, which the source does not guard and whose behaviour C++ leaves
  undefined. \<open>ReadFailed\<close> is the failure of \<open>::read\<close>, which has no cause in this
  model of the file, and \<open>DecompressFailed\<close> is a decompressor returning false.
  \<open>ReserveAborted\<close> is the end of the process when
  \<open>ops_buffer->reserve(footer_.op.num_ops)\<close> in \<open>ParseOps\<close> throws: nothing in the
  source catches the exception.
\<close>

datatype error =
    LseekEndFailed
  | LseekHeaderFailed
  | ReadHeaderFailed
  | HeaderMagicCorrupted
  | HeaderSizeUnknown
  | FooterSizeUnknown
  | HeaderVersionMismatch
  | FailedToReadFullFooter
  | ReadFooterFailed
  | LseekOpsFailed
  | ReserveAborted
  | ReadOpFailed
  | LseekNextOpFailed
  | NumOpsMismatch
  | OpsSizeMismatch
  | OpsChecksumMismatch
  | MergeOpsCheckFailed
  | ReadPastEnd
  | InvalidDataOffset
  | LseekRawBytesFailed
  | ReadFailed
  | UnknownCompressionType
  | DecompressFailed
  | NotDoneCheckFailed

text \<open>
  The source reports all of them alike (\<open>false\<close>, or an abort); the taxonomy below
  is the one the design documents use for the failure sites it names.
\<close>

datatype failure_class = FormatError | IntegrityError | ConsistencyError | BoundsError | IoError

fun error_class :: "error \<Rightarrow> failure_class option" where
  "error_class HeaderMagicCorrupted = Some FormatError"
| "error_class HeaderSizeUnknown = Some FormatError"
| "error_class FooterSizeUnknown = Some FormatError"
| "error_class HeaderVersionMismatch = Some FormatError"
| "error_class UnknownCompressionType = Some FormatError"
| "error_class NumOpsMismatch = Some IntegrityError"
| "error_class OpsSizeMismatch = Some IntegrityError"
| "error_class OpsChecksumMismatch = Some IntegrityError"
| "error_class MergeOpsCheckFailed = Some ConsistencyError"
| "error_class InvalidDataOffset = Some BoundsError"
| "error_class LseekEndFailed = Some IoError"
| "error_class LseekHeaderFailed = Some IoError"
| "error_class ReadHeaderFailed = Some IoError"
| "error_class FailedToReadFullFooter = Some IoError"
| "error_class ReadFooterFailed = Some IoError"
| "error_class LseekOpsFailed = Some IoError"
| "error_class ReadOpFailed = Some IoError"
| "error_class LseekNextOpFailed = Some IoError"
| "error_class LseekRawBytesFailed = Some IoError"
| "error_class ReadFailed = Some IoError"
| "error_class ReadPastEnd = None"
| "error_class ReserveAborted = None"
| "error_class DecompressFailed = None"
| "error_class NotDoneCheckFailed = None"

section \<open>Merge-progress trimming\<close>

definition is_metadata_op :: "cow_format \<Rightarrow> byte list \<Rightarrow> bool" where
  "is_metadata_op fmt current_op \<longleftrightarrow>
     type (as_CowOperation fmt current_op) = kCowLabelOp fmt \<or>
     type (as_CowOperation fmt current_op) = kCowFooterOp fmt"

text \<open>
  The loop \<open>while (merge_ops) { ... }\<close> of \<open>ParseOps\<close>. Its result is the final value
  of \<open>metadata_ops\<close>. The source reads \<open>ops_buffer->data()[current_op_num]\<close> without
  comparing the index with the size of the vector.
\<close>

function trim_walk ::
  "cow_format \<Rightarrow> byte list list \<Rightarrow> nat \<Rightarrow> nat \<Rightarrow> nat \<Rightarrow> error + nat" where
  "trim_walk fmt ops_buffer merge_ops metadata_ops current_op_num =
     (if merge_ops = 0 then Inr metadata_ops
      else if length ops_buffer \<le> current_op_num then Inl ReadPastEnd
      else if is_metadata_op fmt (ops_buffer ! current_op_num)
           then trim_walk fmt ops_buffer merge_ops (metadata_ops + 1) (current_op_num + 1)
           else trim_walk fmt ops_buffer (merge_ops - 1) metadata_ops (current_op_num + 1))"
  by pat_completeness auto
termination
  by (relation "measure (\<lambda>(fmt, ops_buffer, merge_ops, metadata_ops, current_op_num).
                  length ops_buffer - current_op_num)") auto

declare trim_walk.simps [simp del]

text \<open>The block \<open>if (header_.num_merge_ops > 0) { ... }\<close> of \<open>ParseOps\<close>.\<close>

definition trim_merged :: "cow_format \<Rightarrow> nat \<Rightarrow> byte list list \<Rightarrow> error + byte list list" where
  "trim_merged fmt n_merge_ops ops_buffer =
     (if n_merge_ops > 0 then
        (if \<not> length ops_buffer \<ge> n_merge_ops then Inl MergeOpsCheckFailed
         else case trim_walk fmt ops_buffer n_merge_ops 0 0 of
                Inl e \<Rightarrow> Inl e
              | Inr metadata_ops \<Rightarrow> Inr (drop (n_merge_ops + metadata_ops) ops_buffer))
      else Inr ops_buffer)"

section \<open>The reader\<close>

text \<open>
  The members of \<open>CowReader\<close>, with the prefix \<open>m_\<close> in place of the trailing
  underscore: \<open>m_fd\<close> is \<open>fd_\<close>, and so on. \<open>footer_\<close> is kept as its two parts,
  \<open>footer_.op\<close> and \<open>footer_.data\<close>. The constructor leaves \<open>fd_\<close> at \<open>-1\<close>; the
  model puts a descriptor of an empty file there, which nothing reads before \<open>Parse\<close>
  replaces it. The constructor also leaves \<open>ops_\<close> a null pointer, which only a
  successful \<open>ParseOps\<close> replaces by a vector; \<open>m_ops\<close> is the content of that vector,
  and the empty list in \<open>CowReader_new\<close> stands for the null pointer. The iterators
  below are therefore those of a reader on which \<open>Parse\<close> has succeeded: on any other
  reader \<open>GetOpIter\<close> and \<open>GetRevOpIter\<close> of the source dereference the null pointer,
  which the model does not represent.
\<close>

record CowReader =
  m_fd :: fd_state
  m_header :: "byte list"
  footer_op :: "byte list"
  footer_data :: "byte list"
  m_fd_size :: u64
  m_has_footer :: bool
  m_last_label :: u64
  m_has_last_label :: bool
  m_ops :: "byte list list"

definition CowReader_new :: "cow_format \<Rightarrow> CowReader" where
  "CowReader_new fmt =
     \<lparr>m_fd = \<lparr>fd_data = [], fd_pos = 0, fd_log = []\<rparr>,
      m_header = replicate (sizeof_CowHeader fmt) 0,
      footer_op = replicate (sizeof_CowOperation fmt) 0,
      footer_data = replicate (sizeof_CowFooterData fmt) 0,
      m_fd_size = 0,
      m_has_footer = False,
      m_last_label = 0,
      m_has_last_label = False,
      m_ops = []\<rparr>"

subsection \<open>The scan of the operation records\<close>

text \<open>The local variables of \<open>ParseOps\<close> that live across iterations of its first loop.\<close>

record parse_locals =
  pos :: u64
  next_last_label :: "u64 option"
  ops_buffer :: "byte list list"
  current_op_num :: nat

text \<open>\<open>std::vector::resize\<close>: truncates, or appends value-initialised elements.\<close>

definition resize :: "nat \<Rightarrow> 'a \<Rightarrow> 'a list \<Rightarrow> 'a list" where
  "resize n dflt xs = take n xs @ replicate (n - length xs) dflt"

text \<open>
  One iteration of \<open>while (pos < last_pos)\<close>. The result is the failure of a
  \<open>return false\<close>, or whether the iteration left the loop by \<open>break\<close> together with
  the members and locals after it. A failed read of the footer's data part leaves the
  bytes that did arrive in \<open>footer_.data\<close>.
\<close>

definition ParseOps_body ::
  "cow_format \<Rightarrow> CowReader \<Rightarrow> parse_locals \<Rightarrow> error + bool \<times> CowReader \<times> parse_locals" where
  "ParseOps_body fmt this l =
     (let buf1 = resize (current_op_num l + 1) (replicate (sizeof_CowOperation fmt) 0) (ops_buffer l);
          (ok, bs, fd1) = ReadFully (m_fd this) (sizeof_CowOperation fmt)
      in if \<not> ok then Inl ReadOpFailed
         else
           let buf2 = buf1[current_op_num l := bs];
               current_op = buf2 ! current_op_num l;
               cop = as_CowOperation fmt current_op;
               (p, fd2) = lseek fd1 (GetNextOpOffset fmt cop) SEEK_CUR;
               pos' = (word_of_int p :: u64)
           in if pos' = - 1 then Inl LseekNextOpFailed
              else
                let l1 = l\<lparr>pos := pos', ops_buffer := buf2, current_op_num := current_op_num l + 1\<rparr>;
                    r1 = (case next_last_label l of
                            Some v \<Rightarrow> this\<lparr>m_fd := fd2, m_last_label := v, m_has_last_label := True\<rparr>
                          | None \<Rightarrow> this\<lparr>m_fd := fd2\<rparr>)
                in if type cop = kCowLabelOp fmt then
                     (if m_has_footer r1
                      then Inr (False, r1\<lparr>m_has_last_label := True, m_last_label := source cop\<rparr>, l1)
                      else Inr (False, r1, l1\<lparr>next_last_label := Some (source cop)\<rparr>))
                   else if type cop = kCowFooterOp fmt then
                     (let r2 = r1\<lparr>footer_op := current_op\<rparr>;
                          l2 = l1\<lparr>current_op_num := current_op_num l1 - 1\<rparr>;
                          (ok2, ds, fd3) = ReadFully (m_fd r2) (sizeof_CowFooterData fmt);
                          r3 = r2\<lparr>m_fd := fd3, footer_data := ds @ drop (length ds) (footer_data r2)\<rparr>
                      in if ok2 then
                           Inr (True,
                                (case next_last_label l2 of
                                   Some v \<Rightarrow> r3\<lparr>m_has_footer := True, m_last_label := v, m_has_last_label := True\<rparr>
                                 | None \<Rightarrow> r3\<lparr>m_has_footer := True\<rparr>),
                                l2)
                         else Inr (True, r3, l2))
                   else Inr (False, r1, l1))"

text \<open>The loop itself. \<open>last_pos\<close> is computed once, before the loop.\<close>

partial_function (option) ParseOps_loop ::
  "cow_format \<Rightarrow> u64 \<Rightarrow> CowReader \<times> parse_locals \<Rightarrow> (error + CowReader \<times> parse_locals) option" where
  "ParseOps_loop fmt last_pos s =
     (if pos (snd s) < last_pos then
        (case ParseOps_body fmt (fst s) (snd s) of
           Inl e \<Rightarrow> Some (Inl e)
         | Inr (brk, this, l) \<Rightarrow>
             if brk then Some (Inr (this, l)) else ParseOps_loop fmt last_pos (this, l))
      else Some (Inr s))"

declare ParseOps_loop.simps [code]

subsection \<open>Verification against the footer\<close>

text \<open>
  The body of \<open>SHA256\<close> is compiled out (\<open>#if 0\<close>): the function returns without
  touching the output buffer, whose content after the call is its content before.
\<close>

definition SHA256 :: "byte list \<Rightarrow> nat \<Rightarrow> byte list \<Rightarrow> byte list" where
  "SHA256 data len out = out"

text \<open>\<open>memcmp\<close>, of which the reader only tests whether the result is zero.\<close>

definition memcmp :: "byte list \<Rightarrow> byte list \<Rightarrow> nat \<Rightarrow> int" where
  "memcmp a b n = (if take n a = take n b then 0 else 1)"

text \<open>
  The block from \<open>uint8_t csum[32]\<close> to the end of \<open>if (has_footer_) ... else ...\<close>.
  The first call of \<open>SHA256\<close> has \<open>footer_.data.footer_checksum\<close> as its output
  buffer, the second one \<open>csum\<close>.
\<close>

definition verify_footer :: "cow_format \<Rightarrow> CowReader \<Rightarrow> byte list list \<Rightarrow> error + CowReader" where
  "verify_footer fmt this ops_buf =
     (let csum = replicate 32 (0 :: byte)
      in if m_has_footer this then
           (let fop = as_CowFooterOperation fmt (footer_op this);
                fdata = as_CowFooterData fmt (footer_data this)
            in if length ops_buf \<noteq> num_ops fop then Inl NumOpsMismatch
               else if length ops_buf * sizeof_CowOperation fmt \<noteq> ops_size fop
                    then Inl OpsSizeMismatch
               else
                 let footer_checksum' =
                       SHA256 (footer_op this) (sizeof_CowOperation fmt) (footer_checksum fdata);
                     fdata' = fdata\<lparr>footer_checksum := footer_checksum'\<rparr>
                 in if memcmp csum (ops_checksum fdata') 32 \<noteq> 0 then Inl OpsChecksumMismatch
                    else
                      let csum' = SHA256 (concat ops_buf) (ops_size fop) csum
                      in if memcmp csum' (ops_checksum fdata') 32 \<noteq> 0
                         then Inl OpsChecksumMismatch
                         else Inr this)
         else Inr this)"

subsection \<open>\<open>ParseOps\<close> and \<open>Parse\<close>\<close>

text \<open>What \<open>ParseOps\<close> does after its first loop.\<close>

definition ParseOps_finish :: "cow_format \<Rightarrow> CowReader \<Rightarrow> byte list list \<Rightarrow> error + CowReader" where
  "ParseOps_finish fmt this ops_buf =
     (case verify_footer fmt this ops_buf of
        Inl e \<Rightarrow> Inl e
      | Inr this' \<Rightarrow>
          (case trim_merged fmt (num_merge_ops (as_CowHeader fmt (m_header this'))) ops_buf of
             Inl e \<Rightarrow> Inl e
           | Inr ops \<Rightarrow> Inr (this'\<lparr>m_ops := ops\<rparr>)))"

text \<open>The state in which \<open>ParseOps\<close> enters its first loop, and the bound of that loop.\<close>

definition ParseOps_last_pos :: "cow_format \<Rightarrow> CowReader \<Rightarrow> u64" where
  "ParseOps_last_pos fmt this =
     m_fd_size this -
       of_nat (if m_has_footer this then sizeof_CowFooter fmt else sizeof_CowOperation fmt)"

definition ParseOps_start :: "cow_format \<Rightarrow> CowReader \<Rightarrow> CowReader \<times> parse_locals" where
  "ParseOps_start fmt this =
     (let (p, fd1) = lseek (m_fd this) (int (sizeof_CowHeader fmt)) SEEK_SET
      in (this\<lparr>m_fd := fd1\<rparr>,
          \<lparr>pos = word_of_int p, next_last_label = None, ops_buffer = [], current_op_num = 0\<rparr>))"

text \<open>The first loop of \<open>ParseOps\<close>, run from the state in which \<open>ParseOps\<close> enters it.\<close>

definition ParseOps_scan ::
  "cow_format \<Rightarrow> CowReader \<Rightarrow> (error + CowReader \<times> parse_locals) option" where
  "ParseOps_scan fmt this =
     ParseOps_loop fmt (ParseOps_last_pos fmt this) (ParseOps_start fmt this)"

text \<open>
  \<open>ParseOps\<close>. Between the seek to the first record and the loop, the source asks
  for room for as many records as the footer found by \<open>Parse\<close> declares:
  \<open>if (has_footer_) ops_buffer->reserve(footer_.op.num_ops)\<close>. The number comes from
  the file and is not checked before. The growth of the vector by \<open>resize\<close> inside the
  loop follows the records that were read; running out of memory there is outside the
  model.
\<close>

definition ParseOps :: "cow_format \<Rightarrow> CowReader \<Rightarrow> (error + CowReader) option" where
  "ParseOps fmt this =
     (if pos (snd (ParseOps_start fmt this)) \<noteq> of_nat (sizeof_CowHeader fmt)
      then Some (Inl LseekOpsFailed)
      else
        if m_has_footer this \<and>
           \<not> reserve_returns fmt (num_ops (as_CowFooterOperation fmt (footer_op this)))
        then Some (Inl ReserveAborted)
        else
          (case ParseOps_scan fmt this of
             None \<Rightarrow> None
           | Some (Inl e) \<Rightarrow> Some (Inl e)
           | Some (Inr (this', l)) \<Rightarrow> Some (ParseOps_finish fmt this' (ops_buffer l))))"

definition Parse :: "cow_format \<Rightarrow> CowReader \<Rightarrow> fd_state \<Rightarrow> (error + CowReader) option" where
  "Parse fmt this fd =
     (let (p, fd1) = lseek fd 0 SEEK_END
      in if p < 0 then Some (Inl LseekEndFailed)
         else
           let (p2, fd2) = lseek fd1 0 SEEK_SET
           in if p2 < 0 then Some (Inl LseekHeaderFailed)
              else
                let (ok, hdr, fd3) = ReadFully fd2 (sizeof_CowHeader fmt)
                in if \<not> ok then Some (Inl ReadHeaderFailed)
                   else
                     let h = as_CowHeader fmt hdr
                     in if magic h \<noteq> kCowMagicNumber fmt then Some (Inl HeaderMagicCorrupted)
                        else if header_size h \<noteq> sizeof_CowHeader fmt then Some (Inl HeaderSizeUnknown)
                        else if footer_size h \<noteq> sizeof_CowFooter fmt then Some (Inl FooterSizeUnknown)
                        else if major_version h \<noteq> kCowVersionMajor fmt \<or>
                                minor_version h \<noteq> kCowVersionMinor fmt
                             then Some (Inl HeaderVersionMismatch)
                        else
                          let (footer_pos, fd4) = lseek fd3 (- int (footer_size h)) SEEK_END
                          in if (word_of_int footer_pos :: u64) \<noteq>
                                  word_of_int p - of_nat (footer_size h)
                             then Some (Inl FailedToReadFullFooter)
                             else
                               let (ok2, ftr, fd5) = ReadFully fd4 (sizeof_CowFooter fmt)
                               in if \<not> ok2 then Some (Inl ReadFooterFailed)
                                  else
                                    ParseOps fmt
                                      (this\<lparr>m_fd := fd5,
                                            m_fd_size := word_of_int p,
                                            m_header := hdr,
                                            footer_op := take (sizeof_CowOperation fmt) ftr,
                                            footer_data := drop (sizeof_CowOperation fmt) ftr,
                                            m_has_footer :=
                                              (ftype (as_CowFooterOperation fmt
                                                        (take (sizeof_CowOperation fmt) ftr)) =
                                               kCowFooterOp fmt)\<rparr>))"

subsection \<open>Accessors\<close>

definition GetHeader :: "CowReader \<Rightarrow> byte list" where
  "GetHeader this = m_header this"

definition GetFooter :: "CowReader \<Rightarrow> (byte list \<times> byte list) option" where
  "GetFooter this = (if \<not> m_has_footer this then None else Some (footer_op this, footer_data this))"

definition GetLastLabel :: "CowReader \<Rightarrow> u64 option" where
  "GetLastLabel this = (if \<not> m_has_last_label this then None else Some (m_last_label this))"

section \<open>Iterators\<close>

text \<open>
  A vector iterator is the index it points at; a reverse iterator is the number of steps
  it is away from \<open>rbegin()\<close>. Dereferencing is guarded by \<open>CHECK(!Done())\<close>.
\<close>

record CowOpIter =
  it_ops :: "byte list list"
  op_iter :: nat

definition CowOpIter_new :: "byte list list \<Rightarrow> CowOpIter" where
  "CowOpIter_new ops = \<lparr>it_ops = ops, op_iter = 0\<rparr>"

definition CowOpIter_Done :: "CowOpIter \<Rightarrow> bool" where
  "CowOpIter_Done it \<longleftrightarrow> op_iter it = length (it_ops it)"

definition CowOpIter_Next :: "CowOpIter \<Rightarrow> error + CowOpIter" where
  "CowOpIter_Next it =
     (if CowOpIter_Done it then Inl NotDoneCheckFailed
      else Inr (it\<lparr>op_iter := op_iter it + 1\<rparr>))"

definition CowOpIter_Get :: "CowOpIter \<Rightarrow> error + byte list" where
  "CowOpIter_Get it =
     (if CowOpIter_Done it then Inl NotDoneCheckFailed
      else if op_iter it < length (it_ops it) then Inr (it_ops it ! op_iter it)
      else Inl ReadPastEnd)"

record CowOpReverseIter =
  rit_ops :: "byte list list"
  op_riter :: nat

definition CowOpReverseIter_new :: "byte list list \<Rightarrow> CowOpReverseIter" where
  "CowOpReverseIter_new ops = \<lparr>rit_ops = ops, op_riter = 0\<rparr>"

definition CowOpReverseIter_Done :: "CowOpReverseIter \<Rightarrow> bool" where
  "CowOpReverseIter_Done it \<longleftrightarrow> op_riter it = length (rit_ops it)"

definition CowOpReverseIter_Next :: "CowOpReverseIter \<Rightarrow> error + CowOpReverseIter" where
  "CowOpReverseIter_Next it =
     (if CowOpReverseIter_Done it then Inl NotDoneCheckFailed
      else Inr (it\<lparr>op_riter := op_riter it + 1\<rparr>))"

definition CowOpReverseIter_Get :: "CowOpReverseIter \<Rightarrow> error + byte list" where
  "CowOpReverseIter_Get it =
     (if CowOpReverseIter_Done it then Inl NotDoneCheckFailed
      else if op_riter it < length (rit_ops it)
           then Inr (rit_ops it ! (length (rit_ops it) - 1 - op_riter it))
      else Inl ReadPastEnd)"

definition GetOpIter :: "CowReader \<Rightarrow> CowOpIter" where
  "GetOpIter this = CowOpIter_new (m_ops this)"

definition GetRevOpIter :: "CowReader \<Rightarrow> CowOpReverseIter" where
  "GetRevOpIter this = CowOpReverseIter_new (m_ops this)"

text \<open>
  A full drain, as a caller writes it:
  \<open>while (!it->Done()) { visit(it->Get()); it->Next(); }\<close>. The result is the list of
  the elements visited, in the order of the visits.
\<close>

partial_function (option) drain ::
  "CowOpIter \<Rightarrow> byte list list \<Rightarrow> (error + byte list list) option" where
  "drain it visited =
     (if CowOpIter_Done it then Some (Inr visited)
      else case CowOpIter_Get it of
             Inl e \<Rightarrow> Some (Inl e)
           | Inr x \<Rightarrow> (case CowOpIter_Next it of
                         Inl e \<Rightarrow> Some (Inl e)
                       | Inr it' \<Rightarrow> drain it' (visited @ [x])))"

declare drain.simps [code]

partial_function (option) rdrain ::
  "CowOpReverseIter \<Rightarrow> byte list list \<Rightarrow> (error + byte list list) option" where
  "rdrain it visited =
     (if CowOpReverseIter_Done it then Some (Inr visited)
      else case CowOpReverseIter_Get it of
             Inl e \<Rightarrow> Some (Inl e)
           | Inr x \<Rightarrow> (case CowOpReverseIter_Next it of
                         Inl e \<Rightarrow> Some (Inl e)
                       | Inr it' \<Rightarrow> rdrain it' (visited @ [x])))"

declare rdrain.simps [code]

section \<open>Reading payloads\<close>

text \<open>
  \<open>offset\<close> is a \<open>uint64_t\<close> and \<open>len\<close> a \<open>size_t\<close>, taken as 64 bits wide; the
  comparisons are unsigned and \<open>offset + len\<close> and \<open>fd_size_ - sizeof(footer_)\<close> wrap.
  The offset reaches \<open>lseek\<close> converted to the signed \<open>off_t\<close>. The result is the
  bytes read (\<open>*read\<close> is their number) and the reader, whose descriptor has moved.
\<close>

definition GetRawBytes ::
  "cow_format \<Rightarrow> CowReader \<Rightarrow> u64 \<Rightarrow> u64 \<Rightarrow> (error + byte list) \<times> CowReader" where
  "GetRawBytes fmt this offset len =
     (if offset < of_nat (sizeof_CowHeader fmt) \<or>
         offset \<ge> m_fd_size this - of_nat (sizeof_CowFooter fmt) \<or>
         len \<ge> m_fd_size this \<or>
         offset + len > m_fd_size this - of_nat (sizeof_CowFooter fmt)
      then (Inl InvalidDataOffset, this)
      else
        let (p, fd1) = lseek (m_fd this) (sint offset) SEEK_SET
        in if p < 0 then (Inl LseekRawBytesFailed, this\<lparr>m_fd := fd1\<rparr>)
           else
             let (bs, fd2) = read fd1 (unat len)
             in (Inr bs, this\<lparr>m_fd := fd2\<rparr>))"

record CowDataStream =
  s_offset :: u64
  s_data_length :: u64
  s_remaining :: u64

definition CowDataStream_new :: "u64 \<Rightarrow> u64 \<Rightarrow> CowDataStream" where
  "CowDataStream_new offset len =
     \<lparr>s_offset = offset, s_data_length = len, s_remaining = len\<rparr>"

text \<open>
  \<open>CowDataStream::Read\<close>. The stream holds a pointer to the reader; here the reader is
  passed in and returned.
\<close>

definition CowDataStream_Read ::
  "cow_format \<Rightarrow> CowReader \<Rightarrow> CowDataStream \<Rightarrow> u64 \<Rightarrow>
   (error + byte list) \<times> CowReader \<times> CowDataStream" where
  "CowDataStream_Read fmt reader s len =
     (let to_read = min len (s_remaining s)
      in if to_read = 0 then (Inr [], reader, s)
         else
           (case GetRawBytes fmt reader (s_offset s) to_read of
              (Inl e, reader') \<Rightarrow> (Inl e, reader', s)
            | (Inr bs, reader') \<Rightarrow>
                (Inr bs, reader',
                 s\<lparr>s_offset := s_offset s + of_nat (length bs),
                   s_remaining := s_remaining s - of_nat (length bs)\<rparr>)))"

definition CowDataStream_Size :: "CowDataStream \<Rightarrow> u64" where
  "CowDataStream_Size s = s_data_length s"

text \<open>
  The decompressors live behind \<open>IDecompressor\<close>, outside this file. \<open>ReadData\<close> is
  given their \<open>Decompress\<close> as a parameter: from the decompressor chosen, the stream
  (its \<open>Read\<close> and its state), the block size, the reader and the sink, it yields
  whether decoding succeeded, and the reader and the sink afterwards.
\<close>

datatype decompressor = Uncompressed | Gz | Brotli

type_synonym 'sink decompress =
  "decompressor \<Rightarrow>
   (CowReader \<Rightarrow> CowDataStream \<Rightarrow> u64 \<Rightarrow> (error + byte list) \<times> CowReader \<times> CowDataStream) \<Rightarrow>
   CowDataStream \<Rightarrow> nat \<Rightarrow> CowReader \<Rightarrow> 'sink \<Rightarrow> bool \<times> CowReader \<times> 'sink"

definition ReadData ::
  "cow_format \<Rightarrow> 'sink decompress \<Rightarrow> CowReader \<Rightarrow> byte list \<Rightarrow> 'sink \<Rightarrow>
   (error + unit) \<times> CowReader \<times> 'sink" where
  "ReadData fmt Decompress this op sink =
     (let cop = as_CowOperation fmt op;
          decompressor =
            (if compression cop = kCowCompressNone fmt then Some Uncompressed
             else if compression cop = kCowCompressGz fmt then Some Gz
             else if compression cop = kCowCompressBrotli fmt then Some Brotli
             else None)
      in case decompressor of
           None \<Rightarrow> (Inl UnknownCompressionType, this, sink)
         | Some d \<Rightarrow>
             (let stream = CowDataStream_new (source cop) (of_nat (data_length cop));
                  (ok, this', sink') =
                    Decompress d (CowDataStream_Read fmt) stream
                      (block_size (as_CowHeader fmt (m_header this))) this sink
              in (if ok then Inr () else Inl DecompressFailed, this', sink')))"

section \<open>A concrete format\<close>

text \<open>
  Version 1.0 of the format, for evaluating the reader on concrete files: packed structs,
  little-endian fields. Only \<open>kCowReplaceOp\<close> records are followed by payload bytes.
  \<open>reserve\<close> returns up to the \<open>max_size()\<close> of a vector of 20-byte elements with a
  64-bit \<open>size_t\<close>, the memory being there.
\<close>

definition le_nat :: "byte list \<Rightarrow> nat" where
  "le_nat bs = foldr (\<lambda>b n. unat b + 256 * n) bs 0"

definition field :: "nat \<Rightarrow> nat \<Rightarrow> byte list \<Rightarrow> nat" where
  "field off len bs = le_nat (take len (drop off bs))"

definition cow_v1 :: cow_format where
  "cow_v1 =
     \<lparr>kCowMagicNumber = 0x436f77634f572121,
      kCowVersionMajor = 1,
      kCowVersionMinor = 0,
      kCowLabelOp = 4,
      kCowFooterOp = 255,
      kCowCompressNone = 0,
      kCowCompressGz = 1,
      kCowCompressBrotli = 2,
      sizeof_CowHeader = 28,
      sizeof_CowOperation = 20,
      sizeof_CowFooterData = 64,
      as_CowHeader = (\<lambda>bs.
        \<lparr>magic = field 0 8 bs, major_version = field 8 2 bs, minor_version = field 10 2 bs,
         header_size = field 12 2 bs, footer_size = field 14 2 bs, block_size = field 16 4 bs,
         num_merge_ops = field 20 8 bs\<rparr>),
      as_CowOperation = (\<lambda>bs.
        \<lparr>type = field 0 1 bs, compression = field 1 1 bs, data_length = field 2 2 bs,
         source = of_nat (field 12 8 bs)\<rparr>),
      as_CowFooterOperation = (\<lambda>bs.
        \<lparr>ftype = field 0 1 bs, ops_size = field 4 8 bs, num_ops = field 12 8 bs\<rparr>),
      as_CowFooterData = (\<lambda>bs.
        \<lparr>footer_checksum = take 32 bs, ops_checksum = take 32 (drop 32 bs)\<rparr>),
      GetNextOpOffset = (\<lambda>cop. if type cop = 2 then int (data_length cop) else 0),
      reserve_returns = (\<lambda>n. n \<le> 922337203685477580)\<rparr>"

text \<open>A descriptor freshly opened on a file with the given bytes.\<close>

definition open_fd :: "byte list \<Rightarrow> fd_state" where
  "open_fd bs = \<lparr>fd_data = bs, fd_pos = 0, fd_log = []\<rparr>"

section \<open>Concrete files\<close>

text \<open>
  Records and files of the concrete format, byte by byte. \<open>header_v1 k\<close> is a valid
  header with block size 4096 and \<open>num_merge_ops = k\<close>; \<open>label_op v\<close> is a Label
  record with value \<open>v\<close>; \<open>replace_op len src\<close> is a Replace record without
  compression, whose \<open>len\<close> payload bytes are at offset \<open>src\<close>;
  \<open>footer_rec sz n\<close> is the metadata part of a footer with \<open>ops_size = sz\<close> and
  \<open>num_ops = n\<close>.
\<close>

definition header_v1 :: "byte \<Rightarrow> byte list" where
  "header_v1 k =
     [0x21, 0x21, 0x57, 0x4f, 0x63, 0x77, 0x6f, 0x43,  1, 0,  0, 0,  28, 0,  84, 0,
      0, 0x10, 0, 0,  k, 0, 0, 0, 0, 0, 0, 0]"

definition label_op :: "byte \<Rightarrow> byte list" where
  "label_op v = [4, 0, 0, 0,  0, 0, 0, 0, 0, 0, 0, 0,  v, 0, 0, 0, 0, 0, 0, 0]"

definition replace_op :: "byte \<Rightarrow> byte \<Rightarrow> byte list" where
  "replace_op len src = [2, 0, len, 0,  0, 0, 0, 0, 0, 0, 0, 0,  src, 0, 0, 0, 0, 0, 0, 0]"

definition footer_rec :: "byte \<Rightarrow> byte \<Rightarrow> byte list" where
  "footer_rec sz n = [255, 0, 64, 0,  sz, 0, 0, 0, 0, 0, 0, 0,  n, 0, 0, 0, 0, 0, 0, 0]"

text \<open>Two Label records and a blank record's worth of bytes; no footer.\<close>

definition file_two_labels :: "byte list" where
  "file_two_labels = header_v1 0 @ label_op 1 @ label_op 2 @ replicate 20 0"

text \<open>
  A Replace record with four payload bytes, then a complete footer, in a file that was
  not yet truncated to its final size: 64 more bytes follow the footer.
\<close>

definition file_inline_footer :: "byte list" where
  "file_inline_footer =
     header_v1 0 @ replace_op 4 48 @ [1, 2, 3, 4] @ footer_rec 20 1 @ replicate 64 0 @
     replicate 64 0"

text \<open>The same records, with the footer counting its own record as well.\<close>

definition file_inline_footer_counted :: "byte list" where
  "file_inline_footer_counted =
     header_v1 0 @ replace_op 4 48 @ [1, 2, 3, 4] @ footer_rec 40 2 @ replicate 64 0 @
     replicate 64 0"

text \<open>
  A cleanly closed file with a Label and a Replace record, whose header says that two
  operations have been merged.
\<close>

definition file_merged_two :: "byte list" where
  "file_merged_two =
     header_v1 2 @ label_op 1 @ replace_op 4 68 @ [1, 2, 3, 4] @ footer_rec 40 2 @
     replicate 64 0"

text \<open>A cleanly closed file with one Replace record and its four payload bytes.\<close>

definition file_one_replace :: "byte list" where
  "file_one_replace =
     header_v1 0 @ replace_op 4 48 @ [1, 2, 3, 4] @ footer_rec 20 1 @ replicate 64 0"

text \<open>The same file with a stored \<open>ops_checksum\<close> that is not all zero.\<close>

definition file_ops_checksum :: "byte list" where
  "file_ops_checksum =
     header_v1 0 @ replace_op 4 48 @ [1, 2, 3, 4] @ footer_rec 20 1 @ replicate 32 0 @
     [7] @ replicate 31 0"

text \<open>The same file with a stored \<open>footer_checksum\<close> that is not all zero.\<close>

definition file_footer_checksum :: "byte list" where
  "file_footer_checksum =
     header_v1 0 @ replace_op 4 48 @ [1, 2, 3, 4] @ footer_rec 20 1 @ [7] @ replicate 31 0 @
     replicate 32 0"

text \<open>
  The file with one Replace record again, with a footer that declares
  \<open>num_ops = 2\<^sup>6\<^sup>3\<close>.
\<close>

definition huge_footer_rec :: "byte list" where
  "huge_footer_rec = [255, 0, 64, 0,  20, 0, 0, 0, 0, 0, 0, 0,  0, 0, 0, 0, 0, 0, 0, 128]"

definition file_huge_num_ops :: "byte list" where
  "file_huge_num_ops =
     header_v1 0 @ replace_op 4 48 @ [1, 2, 3, 4] @ huge_footer_rec @ replicate 64 0"

text \<open>Parsing a file of the concrete format with a fresh reader.\<close>

definition parse_v1 :: "byte list \<Rightarrow> (error + CowReader) option" where
  "parse_v1 bs = Parse cow_v1 (CowReader_new cow_v1) (open_fd bs)"

section \<open>Notions used in the statements\<close>

text \<open>The value of the last Label record of a sequence of records, if there is one.\<close>

definition label_ops :: "cow_format \<Rightarrow> byte list list \<Rightarrow> byte list list" where
  "label_ops fmt ops = filter (\<lambda>op. type (as_CowOperation fmt op) = kCowLabelOp fmt) ops"

definition last_label_of :: "cow_format \<Rightarrow> byte list list \<Rightarrow> u64 option" where
  "last_label_of fmt ops =
     (if label_ops fmt ops = [] then None
      else Some (source (as_CowOperation fmt (last (label_ops fmt ops)))))"


text \<open>
  A format in which the scan advances: records have a positive size and are followed by
  a non-negative number of payload bytes.
\<close>

definition wf_format :: "cow_format \<Rightarrow> bool" where
  "wf_format fmt \<longleftrightarrow>
     0 < sizeof_CowOperation fmt \<and> (\<forall>cop. 0 \<le> GetNextOpOffset fmt cop)"

text \<open>The disagreement of a header with the format that \<open>Parse\<close> tests for.\<close>

definition header_mismatch :: "cow_format \<Rightarrow> CowHeader \<Rightarrow> bool" where
  "header_mismatch fmt h \<longleftrightarrow>
     magic h \<noteq> kCowMagicNumber fmt \<or>
     header_size h \<noteq> sizeof_CowHeader fmt \<or>
     footer_size h \<noteq> sizeof_CowFooter fmt \<or>
     major_version h \<noteq> kCowVersionMajor fmt \<or>
     minor_version h \<noteq> kCowVersionMinor fmt"

section \<open>Auxiliary notions of the proofs\<close>

text \<open>
  The length of the shortest prefix of \<open>xs\<close> that holds \<open>k\<close> operations other than
  Label and Footer records (the whole of \<open>xs\<close> if there are fewer).
\<close>

fun prefix_len :: "cow_format \<Rightarrow> nat \<Rightarrow> byte list list \<Rightarrow> nat" where
  "prefix_len fmt 0 xs = 0"
| "prefix_len fmt (Suc k) [] = 0"
| "prefix_len fmt (Suc k) (x # xs) =
     Suc (if is_metadata_op fmt x then prefix_len fmt (Suc k) xs else prefix_len fmt k xs)"

text \<open>The watermark after the promotion with which an iteration of the scan begins.\<close>

definition promoted :: "CowReader \<Rightarrow> parse_locals \<Rightarrow> u64 option" where
  "promoted this l = (case next_last_label l of Some v \<Rightarrow> Some v | None \<Rightarrow> GetLastLabel this)"

text \<open>The invariant of the scan about labels, for a given initial \<open>has_footer_\<close>.\<close>

definition label_inv :: "cow_format \<Rightarrow> bool \<Rightarrow> CowReader \<times> parse_locals \<Rightarrow> bool" where
  "label_inv fmt hf s \<longleftrightarrow>
     current_op_num (snd s) = length (ops_buffer (snd s)) \<and>
     m_has_footer (fst s) = hf \<and>
     (if hf then next_last_label (snd s) = None \<and>
                 GetLastLabel (fst s) = last_label_of fmt (ops_buffer (snd s))
      else GetLastLabel (fst s) = last_label_of fmt (butlast (ops_buffer (snd s))) \<and>
           next_last_label (snd s) = last_label_of fmt (ops_buffer (snd s)))"

text \<open>
  The reader as \<open>Parse\<close> hands it to \<open>ParseOps\<close> for a file of the concrete format
  that passes the tests of \<open>Parse\<close>: header and footer region read, the descriptor at
  the end of the file.
\<close>

definition entering_v1 :: "byte list \<Rightarrow> CowReader" where
  "entering_v1 bs =
     (CowReader_new cow_v1)
       \<lparr>m_fd := \<lparr>fd_data = bs, fd_pos = length bs, fd_log = []\<rparr>,
        m_header := take 28 bs,
        footer_op := take 20 (drop (length bs - 84) bs),
        footer_data := drop (length bs - 64) bs,
        m_fd_size := of_nat (length bs),
        m_has_footer := (ftype (as_CowFooterOperation cow_v1 (take 20 (drop (length bs - 84) bs))) =
                         kCowFooterOp cow_v1)\<rparr>"

text \<open>The invariant of the scan about the members it does not change.\<close>

definition scan_inv :: "u64 \<Rightarrow> byte list \<Rightarrow> CowReader \<times> parse_locals \<Rightarrow> bool" where
  "scan_inv sz hdr s \<longleftrightarrow>
     current_op_num (snd s) = length (ops_buffer (snd s)) \<and>
     m_fd_size (fst s) = sz \<and> m_header (fst s) = hdr"

text \<open>A file of the right length whose bytes are all zero: its magic number is wrong.\<close>

definition file_zeros :: "byte list" where
  "file_zeros = replicate 136 0"

section \<open>Properties\<close>

subsection \<open>Merge-progress trimming\<close>

lemma prefix_len_le: "prefix_len fmt k xs \<le> length xs"
  by (induction fmt k xs rule: prefix_len.induct) auto

lemma prefix_len_real:
  "k \<le> length (filter (\<lambda>x. \<not> is_metadata_op fmt x) xs) \<Longrightarrow>
   length (filter (\<lambda>x. \<not> is_metadata_op fmt x) (take (prefix_len fmt k xs) xs)) = k"
  by (induction fmt k xs rule: prefix_len.induct) auto

lemma prefix_len_least:
  "m < prefix_len fmt k xs \<Longrightarrow>
   length (filter (\<lambda>x. \<not> is_metadata_op fmt x) (take m xs)) < k"
proof (induction fmt k xs arbitrary: m rule: prefix_len.induct)
  case (3 fmt k x xs)
  then show ?case by (cases m) (auto split: if_splits)
qed auto

lemma filter_meta_real:
  "length (filter (is_metadata_op fmt) xs) +
   length (filter (\<lambda>x. \<not> is_metadata_op fmt x) xs) = length xs"
  by (induction xs) auto

lemma trim_walk_prefix:
  "m \<le> length (filter (\<lambda>x. \<not> is_metadata_op fmt x) (drop i ops)) \<Longrightarrow>
   trim_walk fmt ops m c i =
     Inr (c + length (filter (is_metadata_op fmt)
                        (take (prefix_len fmt m (drop i ops)) (drop i ops))))"
proof (induction fmt ops m c i rule: trim_walk.induct)
  case (1 fmt ops m c i)
  show ?case
  proof (cases "m = 0")
    case True
    then show ?thesis by (subst trim_walk.simps) simp
  next
    case False
    then obtain k where k: "m = Suc k" by (cases m) auto
    from False "1.prems" have i: "i < length ops" by (cases "i < length ops") auto
    then have d: "drop i ops = ops ! i # drop (Suc i) ops"
      by (simp add: Cons_nth_drop_Suc)
    show ?thesis
    proof (cases "is_metadata_op fmt (ops ! i)")
      case True
      with "1.prems" d
      have "m \<le> length (filter (\<lambda>x. \<not> is_metadata_op fmt x) (drop (i + 1) ops))" by simp
      from "1.IH"(1)[OF False _ True this] i True d k show ?thesis
        by (subst trim_walk.simps) simp
    next
      case F: False
      with "1.prems" d k
      have "m - 1 \<le> length (filter (\<lambda>x. \<not> is_metadata_op fmt x) (drop (i + 1) ops))" by simp
      from "1.IH"(2)[OF False _ F this] i F d k show ?thesis
        by (subst trim_walk.simps) simp
    qed
  qed
qed

lemmas eval_format = cow_v1_def field_def le_nat_def sizeof_CowFooter_def

lemmas eval_io = lseek_def ReadFully_def read_def open_fd_def Let_def

lemmas eval_parse = parse_v1_def Parse_def ParseOps_def ParseOps_scan_def ParseOps_start_def
  ParseOps_last_pos_def ParseOps_loop.simps ParseOps_body_def ParseOps_finish_def
  verify_footer_def trim_merged_def CowReader_new_def resize_def SHA256_def memcmp_def
  is_metadata_op_def trim_walk.simps

lemmas eval_files = header_v1_def label_op_def replace_op_def footer_rec_def

lemmas eval_entering = entering_v1_def ParseOps_scan_def ParseOps_start_def ParseOps_last_pos_def
  ParseOps_loop.simps ParseOps_body_def CowReader_new_def resize_def

text \<open>
  C4. When the header's \<open>num_merge_ops\<close> is \<open>k > 0\<close> and the parsed sequence holds
  at least \<open>k\<close> operations that are neither Label nor Footer records, trimming returns
  the sequence without its first \<open>n\<close> records, where the first \<open>n\<close> records are the
  shortest prefix with \<open>k\<close> such operations: they hold exactly \<open>k\<close> of them, every
  shorter prefix holds fewer, and \<open>n\<close> is \<open>k\<close> plus the number of Label and Footer
  records among them. The length of the result is the original length minus that sum.
\<close>

theorem trim_merged_result:
  assumes "0 < k" and "k \<le> length (filter (\<lambda>x. \<not> is_metadata_op fmt x) ops)"
  shows "\<exists>n. trim_merged fmt k ops = Inr (drop n ops) \<and> n \<le> length ops \<and>
             length (filter (\<lambda>x. \<not> is_metadata_op fmt x) (take n ops)) = k \<and>
             (\<forall>m<n. length (filter (\<lambda>x. \<not> is_metadata_op fmt x) (take m ops)) < k) \<and>
             n = k + length (filter (is_metadata_op fmt) (take n ops)) \<and>
             length (drop n ops) =
               length ops - (k + length (filter (is_metadata_op fmt) (take n ops)))"
proof -
  let ?n = "prefix_len fmt k ops"
  have le: "?n \<le> length ops" by (rule prefix_len_le)
  have r: "length (filter (\<lambda>x. \<not> is_metadata_op fmt x) (take ?n ops)) = k"
    using assms(2) by (rule prefix_len_real)
  have n: "?n = k + length (filter (is_metadata_op fmt) (take ?n ops))"
    using filter_meta_real[of fmt "take ?n ops"] r le by simp
  have kl: "k \<le> length ops"
    using assms(2) length_filter_le[of "\<lambda>x. \<not> is_metadata_op fmt x" ops] by (rule order_trans)
  have w: "trim_walk fmt ops k 0 0 = Inr (length (filter (is_metadata_op fmt) (take ?n ops)))"
    using trim_walk_prefix[of k fmt 0 ops 0] assms(2) by simp
  have t: "trim_merged fmt k ops = Inr (drop ?n ops)"
    using assms(1) kl w n by (simp add: trim_merged_def)
  show ?thesis
    using t le r n prefix_len_least[of _ fmt k ops] by (intro exI[of _ ?n]) auto
qed

theorem trim_merged_result_witness:
  "(0 :: nat) < 1 \<and>
   1 \<le> length (filter (\<lambda>x. \<not> is_metadata_op cow_v1 x)
                  [label_op 1, replace_op 4 68, label_op 2, replace_op 4 92]) \<and>
   trim_merged cow_v1 1 [label_op 1, replace_op 4 68, label_op 2, replace_op 4 92] =
     Inr [label_op 2, replace_op 4 92]"
proof -
  let ?ops = "[label_op 1, replace_op 4 68, label_op 2, replace_op 4 92]"
  have h1: "(0 :: nat) < 1" by simp
  have h2: "1 \<le> length (filter (\<lambda>x. \<not> is_metadata_op cow_v1 x) ?ops)"
    by (simp add: is_metadata_op_def eval_format eval_files)
  have m: "is_metadata_op cow_v1 (label_op 1)" "\<not> is_metadata_op cow_v1 (replace_op 4 68)"
    by (simp_all add: is_metadata_op_def eval_format eval_files)
  from trim_merged_result[OF h1 h2] obtain n where
    t: "trim_merged cow_v1 1 ?ops = Inr (drop n ?ops)" and
    e: "n = 1 + length (filter (is_metadata_op cow_v1) (take n ?ops))" and
    r: "length (filter (\<lambda>x. \<not> is_metadata_op cow_v1 x) (take n ?ops)) = 1" and
    l: "\<forall>m<n. length (filter (\<lambda>x. \<not> is_metadata_op cow_v1 x) (take m ?ops)) < 1"
    by blast
  have "n = 2"
  proof (rule ccontr)
    assume "n \<noteq> 2"
    then consider "n = 0" | "n = 1" | "2 < n" by linarith
    then show False
    proof cases
      case 1 with r show False by simp
    next
      case 2 with r m show False by simp
    next
      case 3
      with l have "length (filter (\<lambda>x. \<not> is_metadata_op cow_v1 x) (take 2 ?ops)) < 1" by blast
      with m show False by simp
    qed
  qed
  with t h1 h2 show ?thesis by simp
qed

text \<open>
  C3. The specification says that a header whose \<open>num_merge_ops\<close> exceeds the number of
  operations other than Label and Footer records makes the parse fail with a consistency
  error, the walk never reading past the end of the sequence. \<open>CHECK\<close> compares
  \<open>num_merge_ops\<close> with the number of all records, Label records included: on a
  cleanly closed file with a Label and a Replace record and \<open>num_merge_ops = 2\<close> the
  check passes, and the walk reads the element at index 2 of a vector of size 2.
\<close>

theorem trim_walk_reads_past_end:
  "parse_v1 file_merged_two = Some (Inl ReadPastEnd)"
  by (simp add: file_merged_two_def eval_parse eval_io eval_format eval_files)

subsection \<open>The scan of the operation records\<close>

lemma ParseOps_loop_rule:
  assumes run: "ParseOps_loop fmt lp s = Some res"
    and inv: "I s"
    and step: "\<And>this l this' l'. I (this, l) \<Longrightarrow> pos l < lp \<Longrightarrow>
                 ParseOps_body fmt this l = Inr (False, this', l') \<Longrightarrow> I (this', l')"
    and brk: "\<And>this l this' l'. I (this, l) \<Longrightarrow> pos l < lp \<Longrightarrow>
                 ParseOps_body fmt this l = Inr (True, this', l') \<Longrightarrow> Q (Inr (this', l'))"
    and exit: "\<And>this l. I (this, l) \<Longrightarrow> \<not> pos l < lp \<Longrightarrow> Q (Inr (this, l))"
    and err: "\<And>this l e. I (this, l) \<Longrightarrow> pos l < lp \<Longrightarrow>
                 ParseOps_body fmt this l = Inl e \<Longrightarrow> Q (Inl e)"
  shows "Q res"
proof -
  have "ParseOps_loop fmt lp s = Some res \<Longrightarrow> fmt = fmt \<longrightarrow> lp = lp \<longrightarrow> I s \<longrightarrow> Q res"
  proof (rule ParseOps_loop.raw_induct
      [where P = "\<lambda>f p s y. f = fmt \<longrightarrow> p = lp \<longrightarrow> I s \<longrightarrow> Q y"], intro impI)
    fix loop f p s y
    assume IH: "\<And>f p s y. loop f p s = Some y \<Longrightarrow> f = fmt \<longrightarrow> p = lp \<longrightarrow> I s \<longrightarrow> Q y"
      and eq: "(if pos (snd s) < p
                then case ParseOps_body f (fst s) (snd s) of
                       Inl e \<Rightarrow> Some (Inl e)
                     | Inr (brk, this, l) \<Rightarrow>
                         if brk then Some (Inr (this, l)) else loop f p (this, l)
                else Some (Inr s)) = Some y"
      and f: "f = fmt" and p: "p = lp" and i: "I s"
    obtain this l where s: "s = (this, l)" by (cases s)
    show "Q y"
    proof (cases "pos l < lp")
      case False
      with eq s p have "y = Inr (this, l)" by simp
      with exit[OF i[unfolded s] False] show ?thesis by simp
    next
      case True
      show ?thesis
      proof (cases "ParseOps_body fmt this l")
        case (Inl e)
        with eq s p f True have "y = Inl e" by simp
        with err[OF i[unfolded s] True Inl] show ?thesis by simp
      next
        case (Inr t)
        obtain b this' l' where t: "t = (b, this', l')" by (cases t)
        show ?thesis
        proof (cases b)
          case True
          with eq s p f \<open>pos l < lp\<close> Inr t have "y = Inr (this', l')" by simp
          with brk[OF i[unfolded s] \<open>pos l < lp\<close>] Inr t True show ?thesis by simp
        next
          case False
          with eq s p f \<open>pos l < lp\<close> Inr t have "loop fmt lp (this', l') = Some y" by simp
          from IH[OF this] step[OF i[unfolded s] \<open>pos l < lp\<close>] Inr t False
          show ?thesis by simp
        qed
      qed
    qed
  qed
  with run inv show ?thesis by simp
qed

lemma resize_append: "(resize (Suc (length xs)) z xs)[length xs := b] = xs @ [b]"
  by (simp add: resize_def)

lemma last_label_of_snoc:
  "last_label_of fmt (xs @ [x]) =
     (if type (as_CowOperation fmt x) = kCowLabelOp fmt then Some (source (as_CowOperation fmt x))
      else last_label_of fmt xs)"
  by (simp add: last_label_of_def label_ops_def)

lemma last_label_of_Nil: "last_label_of fmt [] = None"
  by (simp add: last_label_of_def label_ops_def)

lemma ParseOps_body_InrD:
  assumes "ParseOps_body fmt this l = Inr res"
  shows "\<exists>bs fd1 p fd2.
           ReadFully (m_fd this) (sizeof_CowOperation fmt) = (True, bs, fd1) \<and>
           lseek fd1 (GetNextOpOffset fmt
                        (as_CowOperation fmt
                           ((resize (current_op_num l + 1) (replicate (sizeof_CowOperation fmt) 0)
                               (ops_buffer l))[current_op_num l := bs] ! current_op_num l)))
             SEEK_CUR = (p, fd2) \<and>
           (word_of_int p :: u64) \<noteq> - 1"
proof -
  obtain ok bs fd1 where rf: "ReadFully (m_fd this) (sizeof_CowOperation fmt) = (ok, bs, fd1)"
    by (cases "ReadFully (m_fd this) (sizeof_CowOperation fmt)") auto
  let ?cop = "as_CowOperation fmt
                ((resize (current_op_num l + 1) (replicate (sizeof_CowOperation fmt) 0)
                    (ops_buffer l))[current_op_num l := bs] ! current_op_num l)"
  obtain p fd2 where ls: "lseek fd1 (GetNextOpOffset fmt ?cop) SEEK_CUR = (p, fd2)"
    by (cases "lseek fd1 (GetNextOpOffset fmt ?cop) SEEK_CUR") auto
  from assms rf have ok: ok
    by (cases ok) (simp_all add: ParseOps_body_def)
  from assms rf ls ok have "(word_of_int p :: u64) \<noteq> - 1"
    by (cases "(word_of_int p :: u64) = - 1") (simp_all add: ParseOps_body_def Let_def)
  with rf ls ok show ?thesis by simp
qed

lemma ParseOps_body_unfold:
  assumes "current_op_num l = length (ops_buffer l)"
    and "ReadFully (m_fd this) (sizeof_CowOperation fmt) = (True, bs, fd1)"
    and "lseek fd1 (GetNextOpOffset fmt (as_CowOperation fmt bs)) SEEK_CUR = (p, fd2)"
    and "(word_of_int p :: u64) \<noteq> - 1"
  shows "ParseOps_body fmt this l =
     (let cop = as_CowOperation fmt bs;
          l1 = l\<lparr>pos := word_of_int p, ops_buffer := ops_buffer l @ [bs],
                 current_op_num := length (ops_buffer l) + 1\<rparr>;
          r1 = (case next_last_label l of
                  Some v \<Rightarrow> this\<lparr>m_fd := fd2, m_last_label := v, m_has_last_label := True\<rparr>
                | None \<Rightarrow> this\<lparr>m_fd := fd2\<rparr>)
      in if type cop = kCowLabelOp fmt then
           (if m_has_footer r1
            then Inr (False, r1\<lparr>m_has_last_label := True, m_last_label := source cop\<rparr>, l1)
            else Inr (False, r1, l1\<lparr>next_last_label := Some (source cop)\<rparr>))
         else if type cop = kCowFooterOp fmt then
           (let r2 = r1\<lparr>footer_op := bs\<rparr>;
                l2 = l1\<lparr>current_op_num := current_op_num l1 - 1\<rparr>;
                (ok2, ds, fd3) = ReadFully (m_fd r2) (sizeof_CowFooterData fmt);
                r3 = r2\<lparr>m_fd := fd3, footer_data := ds @ drop (length ds) (footer_data r2)\<rparr>
            in if ok2 then
                 Inr (True,
                      (case next_last_label l2 of
                         Some v \<Rightarrow> r3\<lparr>m_has_footer := True, m_last_label := v, m_has_last_label := True\<rparr>
                       | None \<Rightarrow> r3\<lparr>m_has_footer := True\<rparr>),
                      l2)
               else Inr (True, r3, l2))
         else Inr (False, r1, l1))"
  using assms by (simp add: ParseOps_body_def Let_def resize_append)


lemma ParseOps_body_cases:
  assumes b: "ParseOps_body fmt this l = Inr res"
    and n: "current_op_num l = length (ops_buffer l)"
  obtains bs fd1 p fd2 where
    "ReadFully (m_fd this) (sizeof_CowOperation fmt) = (True, bs, fd1)"
    "lseek fd1 (GetNextOpOffset fmt (as_CowOperation fmt bs)) SEEK_CUR = (p, fd2)"
    "(word_of_int p :: u64) \<noteq> - 1"
proof -
  from ParseOps_body_InrD[OF b] obtain bs fd1 p fd2 where
    "ReadFully (m_fd this) (sizeof_CowOperation fmt) = (True, bs, fd1)"
    "lseek fd1 (GetNextOpOffset fmt
                        (as_CowOperation fmt
                           ((resize (current_op_num l + 1) (replicate (sizeof_CowOperation fmt) 0)
                               (ops_buffer l))[current_op_num l := bs] ! current_op_num l)))
             SEEK_CUR = (p, fd2)"
    "(word_of_int p :: u64) \<noteq> - 1"
    by blast
  then show ?thesis
    using that[of bs fd1 p fd2] by (simp add: n resize_append)
qed

lemma ParseOps_body_labels:
  assumes b: "ParseOps_body fmt this l = Inr (brk, this', l')"
    and n: "current_op_num l = length (ops_buffer l)"
  shows "\<exists>bs. ops_buffer l' = ops_buffer l @ [bs] \<and>
           (if type (as_CowOperation fmt bs) = kCowLabelOp fmt
            then \<not> brk \<and>
                 (if m_has_footer this
                  then GetLastLabel this' = Some (source (as_CowOperation fmt bs)) \<and>
                       next_last_label l' = next_last_label l
                  else GetLastLabel this' = promoted this l \<and>
                       next_last_label l' = Some (source (as_CowOperation fmt bs)))
            else GetLastLabel this' = promoted this l \<and>
                 next_last_label l' = next_last_label l \<and>
                 (brk \<longleftrightarrow> type (as_CowOperation fmt bs) = kCowFooterOp fmt)) \<and>
           (\<not> brk \<longrightarrow> m_has_footer this' = m_has_footer this \<and>
                    current_op_num l' = length (ops_buffer l'))"
proof -
  from b n obtain bs fd1 p fd2 where
    rf: "ReadFully (m_fd this) (sizeof_CowOperation fmt) = (True, bs, fd1)" and
    ls: "lseek fd1 (GetNextOpOffset fmt (as_CowOperation fmt bs)) SEEK_CUR = (p, fd2)" and
    pm: "(word_of_int p :: u64) \<noteq> - 1"
    by (rule ParseOps_body_cases)
  note eq = b[unfolded ParseOps_body_unfold[OF n rf ls pm]]
  obtain ok2 ds fd3 where
    rf2: "ReadFully fd2 (sizeof_CowFooterData fmt) = (ok2, ds, fd3)"
    by (cases "ReadFully fd2 (sizeof_CowFooterData fmt)") auto
  have "ops_buffer l' = ops_buffer l @ [bs] \<and>
           (if type (as_CowOperation fmt bs) = kCowLabelOp fmt
            then \<not> brk \<and>
                 (if m_has_footer this
                  then GetLastLabel this' = Some (source (as_CowOperation fmt bs)) \<and>
                       next_last_label l' = next_last_label l
                  else GetLastLabel this' = promoted this l \<and>
                       next_last_label l' = Some (source (as_CowOperation fmt bs)))
            else GetLastLabel this' = promoted this l \<and>
                 next_last_label l' = next_last_label l \<and>
                 (brk \<longleftrightarrow> type (as_CowOperation fmt bs) = kCowFooterOp fmt)) \<and>
           (\<not> brk \<longrightarrow> m_has_footer this' = m_has_footer this \<and>
                    current_op_num l' = length (ops_buffer l'))"
  proof (cases "type (as_CowOperation fmt bs) = kCowLabelOp fmt")
    case True
    show ?thesis
    proof (cases "next_last_label l")
      case None
      with True eq show ?thesis
        by (cases "m_has_footer this") (auto simp: Let_def promoted_def GetLastLabel_def)
    next
      case (Some v)
      with True eq show ?thesis
        by (cases "m_has_footer this") (auto simp: Let_def promoted_def GetLastLabel_def)
    qed
  next
    case nl: False
    show ?thesis
    proof (cases "type (as_CowOperation fmt bs) = kCowFooterOp fmt")
      case False
      with nl eq show ?thesis
        by (cases "next_last_label l") (auto simp: Let_def promoted_def GetLastLabel_def)
    next
      case True
      show ?thesis
      proof (cases "next_last_label l")
        case None
        with nl True eq rf2 show ?thesis
          by (cases ok2) (auto simp: Let_def promoted_def GetLastLabel_def)
      next
        case (Some v)
        with nl True eq rf2 show ?thesis
          by (cases ok2) (auto simp: Let_def promoted_def GetLastLabel_def)
      qed
    qed
  qed
  then show ?thesis by (rule exI)
qed


lemma promoted_inv:
  "label_inv fmt False (this, l) \<Longrightarrow> promoted this l = last_label_of fmt (ops_buffer l)"
  unfolding label_inv_def promoted_def
  by (cases "ops_buffer l" rule: rev_cases)
     (auto simp: last_label_of_snoc last_label_of_Nil split: option.splits if_splits)

lemma promoted_inv_footer:
  "label_inv fmt True (this, l) \<Longrightarrow> promoted this l = last_label_of fmt (ops_buffer l)"
  unfolding label_inv_def promoted_def by simp

lemma label_inv_step:
  assumes "label_inv fmt hf (this, l)"
    and "ParseOps_body fmt this l = Inr (False, this', l')"
  shows "label_inv fmt hf (this', l')"
proof -
  from assms(1) have n: "current_op_num l = length (ops_buffer l)"
    and hf: "m_has_footer this = hf" by (simp_all add: label_inv_def)
  from ParseOps_body_labels[OF assms(2) n] obtain bs where
    bs: "ops_buffer l' = ops_buffer l @ [bs]" and
    r: "if type (as_CowOperation fmt bs) = kCowLabelOp fmt
            then (if m_has_footer this
                  then GetLastLabel this' = Some (source (as_CowOperation fmt bs)) \<and>
                       next_last_label l' = next_last_label l
                  else GetLastLabel this' = promoted this l \<and>
                       next_last_label l' = Some (source (as_CowOperation fmt bs)))
            else GetLastLabel this' = promoted this l \<and>
                 next_last_label l' = next_last_label l" and
    k: "m_has_footer this' = m_has_footer this" "current_op_num l' = length (ops_buffer l')"
    by (auto split: if_splits)
  show ?thesis
  proof (cases hf)
    case True
    with assms(1) have p: "promoted this l = last_label_of fmt (ops_buffer l)"
      by (simp add: promoted_inv_footer)
    from True assms(1) have "next_last_label l = None" by (simp add: label_inv_def)
    with True hf bs r k p show ?thesis
      by (auto simp: label_inv_def last_label_of_snoc split: if_splits)
  next
    case False
    with assms(1) have p: "promoted this l = last_label_of fmt (ops_buffer l)"
      by (simp add: promoted_inv)
    from False assms(1) have "next_last_label l = last_label_of fmt (ops_buffer l)"
      by (simp add: label_inv_def)
    with False hf bs r k p show ?thesis
      by (auto simp: label_inv_def last_label_of_snoc split: if_splits)
  qed
qed

lemma label_inv_break:
  assumes "label_inv fmt hf (this, l)"
    and "ParseOps_body fmt this l = Inr (True, this', l')"
  shows "GetLastLabel this' =
           last_label_of fmt (if hf then ops_buffer l' else butlast (ops_buffer l'))"
proof -
  from assms(1) have n: "current_op_num l = length (ops_buffer l)"
    and hf: "m_has_footer this = hf" by (simp_all add: label_inv_def)
  from ParseOps_body_labels[OF assms(2) n] obtain bs where
    bs: "ops_buffer l' = ops_buffer l @ [bs]" and
    t: "type (as_CowOperation fmt bs) \<noteq> kCowLabelOp fmt" and
    r: "GetLastLabel this' = promoted this l"
    by (auto split: if_splits)
  from assms(1) have "promoted this l = last_label_of fmt (ops_buffer l)"
    by (cases hf) (simp_all add: promoted_inv promoted_inv_footer)
  with bs t r show ?thesis by (simp add: last_label_of_snoc)
qed

subsection \<open>Verification against the footer\<close>

lemma trim_walk_Inl: "trim_walk fmt ops m c i = Inl e \<Longrightarrow> e = ReadPastEnd"
proof (induction fmt ops m c i rule: trim_walk.induct)
  case (1 fmt ops m c i)
  show ?case
  proof (cases "m = 0")
    case True
    with "1.prems" show ?thesis by (subst (asm) trim_walk.simps) simp
  next
    case m: False
    show ?thesis
    proof (cases "length ops \<le> i")
      case True
      with m "1.prems" show ?thesis by (subst (asm) trim_walk.simps) simp
    next
      case i: False
      show ?thesis
      proof (cases "is_metadata_op fmt (ops ! i)")
        case True
        with m i "1.prems" have "trim_walk fmt ops m (c + 1) (i + 1) = Inl e"
          by (subst (asm) trim_walk.simps) simp
        with "1.IH"(1)[OF m i True] show ?thesis by simp
      next
        case False
        with m i "1.prems" have "trim_walk fmt ops (m - 1) c (i + 1) = Inl e"
          by (subst (asm) trim_walk.simps) simp
        with "1.IH"(2)[OF m i False] show ?thesis by simp
      qed
    qed
  qed
qed


lemma trim_merged_Inl:
  "trim_merged fmt k ops = Inl e \<Longrightarrow> e = MergeOpsCheckFailed \<or> e = ReadPastEnd"
  by (auto simp: trim_merged_def split: if_splits sum.splits dest: trim_walk_Inl)

lemma ParseOps_after_scan:
  assumes "ParseOps_scan fmt this = Some (Inr (this', l))"
    and "pos (snd (ParseOps_start fmt this)) = of_nat (sizeof_CowHeader fmt)"
    and "m_has_footer this \<longrightarrow>
         reserve_returns fmt (num_ops (as_CowFooterOperation fmt (footer_op this)))"
  shows "ParseOps fmt this = Some (ParseOps_finish fmt this' (ops_buffer l))"
  using assms by (auto simp: ParseOps_def)

text \<open>
  A trailing footer whose \<open>num_ops\<close> the vector cannot reserve ends \<open>ParseOps\<close> before
  the first record is read, whatever the records are.
\<close>

lemma ParseOps_reserve_aborts:
  assumes "pos (snd (ParseOps_start fmt this)) = of_nat (sizeof_CowHeader fmt)"
    and "m_has_footer this"
    and "\<not> reserve_returns fmt (num_ops (as_CowFooterOperation fmt (footer_op this)))"
  shows "ParseOps fmt this = Some (Inl ReserveAborted)"
  using assms by (simp add: ParseOps_def)

lemma parse_huge_num_ops:
  "parse_v1 file_huge_num_ops = Some (Inl ReserveAborted) \<and>
   num_ops (as_CowFooterOperation cow_v1 huge_footer_rec) = 2 ^ 63"
  by (simp add: file_huge_num_ops_def huge_footer_rec_def eval_parse eval_io eval_format
      eval_files)

lemma memcmp_zero: "memcmp (replicate 32 0) x 32 \<noteq> 0 \<longleftrightarrow> take 32 x \<noteq> replicate 32 0"
  by (auto simp: memcmp_def)

lemma replicate_numeral_unfold:
  "replicate (numeral k) x = x # replicate (pred_numeral k) x"
  by (simp add: numeral_eq_Suc)




text \<open>
  C6 (as amended). When the reservation of room for the records that a trailing footer
  declares has returned (none is made without a trailing footer) and the scan returns
  with a footer present whose \<open>num_ops\<close> and
  \<open>ops_size\<close> agree with the buffer, \<open>ParseOps\<close> returns, and it fails with ``ops
  checksum does not match'' exactly when the first 32 bytes of the stored
  \<open>ops_checksum\<close> are not all zero: both comparisons are of the zeroed buffer \<open>csum\<close>,
  which the disabled \<open>SHA256\<close> leaves as it is, with the stored \<open>ops_checksum\<close>. The
  stored \<open>footer_checksum\<close> is not compared with anything.
\<close>

theorem digest_comparison:
  assumes "ParseOps_scan fmt this = Some (Inr (this', l))"
    and "pos (snd (ParseOps_start fmt this)) = of_nat (sizeof_CowHeader fmt)"
    and "m_has_footer this \<longrightarrow>
         reserve_returns fmt (num_ops (as_CowFooterOperation fmt (footer_op this)))"
    and "m_has_footer this'"
    and "length (ops_buffer l) = num_ops (as_CowFooterOperation fmt (footer_op this'))"
    and "length (ops_buffer l) * sizeof_CowOperation fmt =
           ops_size (as_CowFooterOperation fmt (footer_op this'))"
  shows "(ParseOps fmt this = Some (Inl OpsChecksumMismatch) \<longleftrightarrow>
           take 32 (ops_checksum (as_CowFooterData fmt (footer_data this'))) \<noteq> replicate 32 0) \<and>
         (\<exists>res. ParseOps fmt this = Some res) \<and>
         error_class OpsChecksumMismatch = Some IntegrityError"
proof -
  note p = ParseOps_after_scan[OF assms(1,2,3)]
  show ?thesis
  proof (cases "take 32 (ops_checksum (as_CowFooterData fmt (footer_data this'))) = replicate 32 0")
    case True
    with assms(4-6) have "verify_footer fmt this' (ops_buffer l) = Inr this'"
      by (simp add: verify_footer_def Let_def memcmp_def SHA256_def)
    then have "ParseOps_finish fmt this' (ops_buffer l) \<noteq> Inl OpsChecksumMismatch"
      by (auto simp: ParseOps_finish_def split: sum.splits dest: trim_merged_Inl)
    with True p show ?thesis by simp
  next
    case False
    with assms(4-6) have "verify_footer fmt this' (ops_buffer l) = Inl OpsChecksumMismatch"
      by (simp add: verify_footer_def Let_def memcmp_def SHA256_def)
    with False p show ?thesis by (simp add: ParseOps_finish_def)
  qed
qed

theorem digest_comparison_witness:
  "\<exists>this' l.
     ParseOps_scan cow_v1 (entering_v1 file_footer_checksum) = Some (Inr (this', l)) \<and>
     pos (snd (ParseOps_start cow_v1 (entering_v1 file_footer_checksum))) =
       of_nat (sizeof_CowHeader cow_v1) \<and>
     m_has_footer (entering_v1 file_footer_checksum) \<and>
     reserve_returns cow_v1
       (num_ops (as_CowFooterOperation cow_v1 (footer_op (entering_v1 file_footer_checksum)))) \<and>
     m_has_footer this' \<and>
     length (ops_buffer l) = num_ops (as_CowFooterOperation cow_v1 (footer_op this')) \<and>
     length (ops_buffer l) * sizeof_CowOperation cow_v1 =
       ops_size (as_CowFooterOperation cow_v1 (footer_op this')) \<and>
     footer_checksum (as_CowFooterData cow_v1 (footer_data this')) \<noteq> replicate 32 0 \<and>
     ParseOps cow_v1 (entering_v1 file_footer_checksum) \<noteq> Some (Inl OpsChecksumMismatch)"
proof -
  have "\<exists>this' l.
     ParseOps_scan cow_v1 (entering_v1 file_footer_checksum) = Some (Inr (this', l)) \<and>
     m_has_footer this' \<and> footer_op this' = footer_rec 20 1 \<and>
     footer_data this' = [7] @ replicate 31 0 @ replicate 32 0 \<and>
     ops_buffer l = [replace_op 4 48]"
    by (simp add: file_footer_checksum_def eval_entering eval_io eval_format eval_files)
  then obtain this' l where
    s: "ParseOps_scan cow_v1 (entering_v1 file_footer_checksum) = Some (Inr (this', l))" and
    f: "m_has_footer this'" and fo: "footer_op this' = footer_rec 20 1" and
    fd: "footer_data this' = [7] @ replicate 31 0 @ replicate 32 0" and
    o: "ops_buffer l = [replace_op 4 48]" by blast
  have p: "pos (snd (ParseOps_start cow_v1 (entering_v1 file_footer_checksum))) =
       of_nat (sizeof_CowHeader cow_v1)"
    by (simp add: file_footer_checksum_def eval_entering eval_io eval_format eval_files)
  have n: "length (ops_buffer l) = num_ops (as_CowFooterOperation cow_v1 (footer_op this'))"
    and z: "length (ops_buffer l) * sizeof_CowOperation cow_v1 =
       ops_size (as_CowFooterOperation cow_v1 (footer_op this'))"
    by (simp_all add: fo o eval_format eval_files)
  have c: "take 32 (ops_checksum (as_CowFooterData cow_v1 (footer_data this'))) = replicate 32 0"
    and c': "footer_checksum (as_CowFooterData cow_v1 (footer_data this')) \<noteq> replicate 32 0"
    by (simp_all add: fd eval_format replicate_numeral_unfold)
  have r: "m_has_footer (entering_v1 file_footer_checksum)"
    and r': "reserve_returns cow_v1
       (num_ops (as_CowFooterOperation cow_v1 (footer_op (entering_v1 file_footer_checksum))))"
    by (simp_all add: file_footer_checksum_def eval_entering eval_io eval_format eval_files)
  from r' have "m_has_footer (entering_v1 file_footer_checksum) \<longrightarrow>
       reserve_returns cow_v1
         (num_ops (as_CowFooterOperation cow_v1 (footer_op (entering_v1 file_footer_checksum))))"
    by simp
  from digest_comparison[OF s p this f n z] c
  have "ParseOps cow_v1 (entering_v1 file_footer_checksum) \<noteq> Some (Inl OpsChecksumMismatch)"
    by simp
  with s p f n z c' r r' show ?thesis by blast
qed

text \<open>
  C6 as the specification states it fails on a cleanly closed file whose footer has the
  right \<open>num_ops\<close> and \<open>ops_size\<close> and a stored \<open>ops_checksum\<close> that starts with the
  byte 7: the parse fails on the digest comparison. With zeros there, the same file
  parses.
\<close>

theorem stored_ops_checksum_counterexample:
  "parse_v1 file_ops_checksum = Some (Inl OpsChecksumMismatch) \<and>
   file_ops_checksum = take 104 file_one_replace @ [7] @ drop 105 file_one_replace \<and>
   map_option (map_sum id m_ops) (parse_v1 file_one_replace) = Some (Inr [replace_op 4 48])"
  by (simp add: file_ops_checksum_def file_one_replace_def eval_parse eval_io eval_format
      eval_files replicate_numeral_unfold)

subsection \<open>\<open>Parse\<close> as a whole\<close>

lemma ReadFully_True:
  "ReadFully fd n = (True, bs, fd') \<Longrightarrow>
   length bs = n \<and> bs = take n (drop (fd_pos fd) (fd_data fd)) \<and>
   fd_pos fd' = fd_pos fd + n \<and> fd_data fd' = fd_data fd"
  by (auto simp: ReadFully_def read_def Let_def)

lemma ReadFully_data: "ReadFully fd n = (ok, bs, fd') \<Longrightarrow> fd_data fd' = fd_data fd"
  by (auto simp: ReadFully_def read_def Let_def)

lemma lseek_data: "lseek fd off wh = (p, fd') \<Longrightarrow> fd_data fd' = fd_data fd"
  by (auto simp: lseek_def Let_def split: if_splits)

lemma lseek_CUR_ok:
  assumes "lseek fd off SEEK_CUR = (p, fd')" and "(word_of_int p :: u64) \<noteq> - 1"
  shows "p = int (fd_pos fd) + off \<and> 0 \<le> p \<and> p < 2 ^ 63 \<and> fd_pos fd' = nat p"
  using assms by (auto simp: lseek_def Let_def split: if_splits)

lemma ParseOps_body_frame:
  assumes b: "ParseOps_body fmt this l = Inr (brk, this', l')"
    and n: "current_op_num l = length (ops_buffer l)"
  shows "m_fd_size this' = m_fd_size this \<and> m_header this' = m_header this \<and>
         m_ops this' = m_ops this \<and> fd_data (m_fd this') = fd_data (m_fd this)"
proof -
  from b n obtain bs fd1 p fd2 where
    rf: "ReadFully (m_fd this) (sizeof_CowOperation fmt) = (True, bs, fd1)" and
    ls: "lseek fd1 (GetNextOpOffset fmt (as_CowOperation fmt bs)) SEEK_CUR = (p, fd2)" and
    pm: "(word_of_int p :: u64) \<noteq> - 1"
    by (rule ParseOps_body_cases)
  note eq = b[unfolded ParseOps_body_unfold[OF n rf ls pm], symmetric]
  obtain ok2 ds fd3 where
    rf2: "ReadFully fd2 (sizeof_CowFooterData fmt) = (ok2, ds, fd3)"
    by (cases "ReadFully fd2 (sizeof_CowFooterData fmt)") auto
  have f: "m_fd_size this' = m_fd_size this \<and> m_header this' = m_header this \<and>
         m_ops this' = m_ops this \<and> (m_fd this' = fd2 \<or> m_fd this' = fd3)"
  proof (cases "type (as_CowOperation fmt bs) = kCowLabelOp fmt")
    case True
    with eq show ?thesis
      by (cases "next_last_label l"; cases "m_has_footer this") (auto simp: Let_def)
  next
    case nl: False
    show ?thesis
    proof (cases "type (as_CowOperation fmt bs) = kCowFooterOp fmt")
      case False
      with nl eq show ?thesis by (cases "next_last_label l") (auto simp: Let_def)
    next
      case True
      with nl eq rf2 show ?thesis
        by (cases "next_last_label l"; cases ok2) (auto simp: Let_def)
    qed
  qed
  from ReadFully_data[OF rf] lseek_data[OF ls] ReadFully_data[OF rf2]
  have "fd_data fd2 = fd_data (m_fd this)" "fd_data fd3 = fd_data (m_fd this)" by simp_all
  with f show ?thesis by auto
qed

lemma ParseOps_body_advance:
  assumes b: "ParseOps_body fmt this l = Inr (False, this', l')"
    and n: "current_op_num l = length (ops_buffer l)"
  shows "\<exists>bs fd1 p.
           ReadFully (m_fd this) (sizeof_CowOperation fmt) = (True, bs, fd1) \<and>
           lseek fd1 (GetNextOpOffset fmt (as_CowOperation fmt bs)) SEEK_CUR = (p, m_fd this') \<and>
           (word_of_int p :: u64) \<noteq> - 1 \<and> pos l' = word_of_int p \<and>
           current_op_num l' = length (ops_buffer l')"
proof -
  from b n obtain bs fd1 p fd2 where
    rf: "ReadFully (m_fd this) (sizeof_CowOperation fmt) = (True, bs, fd1)" and
    ls: "lseek fd1 (GetNextOpOffset fmt (as_CowOperation fmt bs)) SEEK_CUR = (p, fd2)" and
    pm: "(word_of_int p :: u64) \<noteq> - 1"
    by (rule ParseOps_body_cases)
  note eq = b[unfolded ParseOps_body_unfold[OF n rf ls pm], symmetric]
  obtain ok2 ds fd3 where
    rf2: "ReadFully fd2 (sizeof_CowFooterData fmt) = (ok2, ds, fd3)"
    by (cases "ReadFully fd2 (sizeof_CowFooterData fmt)") auto
  have "m_fd this' = fd2 \<and> pos l' = word_of_int p \<and> current_op_num l' = length (ops_buffer l')"
  proof (cases "type (as_CowOperation fmt bs) = kCowLabelOp fmt")
    case True
    with eq show ?thesis
      by (cases "next_last_label l"; cases "m_has_footer this") (auto simp: Let_def)
  next
    case nl: False
    show ?thesis
    proof (cases "type (as_CowOperation fmt bs) = kCowFooterOp fmt")
      case False
      with nl eq show ?thesis by (cases "next_last_label l") (auto simp: Let_def)
    next
      case True
      with nl eq rf2 show ?thesis
        by (cases "next_last_label l"; cases ok2) (auto simp: Let_def)
    qed
  qed
  with rf ls pm show ?thesis by blast
qed

lemma ParseOps_body_Inl:
  assumes b: "ParseOps_body fmt this l = Inl e"
  shows "e = ReadOpFailed \<or> e = LseekNextOpFailed"
proof -
  obtain ok bs fd1 where rf: "ReadFully (m_fd this) (sizeof_CowOperation fmt) = (ok, bs, fd1)"
    by (cases "ReadFully (m_fd this) (sizeof_CowOperation fmt)") auto
  let ?cop = "as_CowOperation fmt
                ((resize (current_op_num l + 1) (replicate (sizeof_CowOperation fmt) 0)
                    (ops_buffer l))[current_op_num l := bs] ! current_op_num l)"
  obtain p fd2 where ls: "lseek fd1 (GetNextOpOffset fmt ?cop) SEEK_CUR = (p, fd2)"
    by (cases "lseek fd1 (GetNextOpOffset fmt ?cop) SEEK_CUR") auto
  obtain ok2 ds fd3 where
    rf2: "ReadFully fd2 (sizeof_CowFooterData fmt) = (ok2, ds, fd3)"
    by (cases "ReadFully fd2 (sizeof_CowFooterData fmt)") auto
  show ?thesis
  proof (cases ok)
    case False
    with b rf show ?thesis by (simp add: ParseOps_body_def)
  next
    case True
    show ?thesis
    proof (cases "(word_of_int p :: u64) = - 1")
      case True
      with b rf ls \<open>ok\<close> show ?thesis by (simp add: ParseOps_body_def Let_def)
    next
      case False
      with b rf ls rf2 \<open>ok\<close> show ?thesis
        by (cases "next_last_label l"; cases ok2)
           (simp_all add: ParseOps_body_def Let_def split: if_splits)
    qed
  qed
qed

lemma ParseOps_body_progress:
  assumes wf: "wf_format fmt"
    and b: "ParseOps_body fmt this l = Inr (False, this', l')"
    and n: "current_op_num l = length (ops_buffer l)"
  shows "fd_pos (m_fd this) < fd_pos (m_fd this') \<and> fd_pos (m_fd this') < 2 ^ 63 \<and>
         pos l' = of_nat (fd_pos (m_fd this')) \<and> current_op_num l' = length (ops_buffer l')"
proof -
  from ParseOps_body_advance[OF b n] obtain bs fd1 p where
    rf: "ReadFully (m_fd this) (sizeof_CowOperation fmt) = (True, bs, fd1)" and
    ls: "lseek fd1 (GetNextOpOffset fmt (as_CowOperation fmt bs)) SEEK_CUR = (p, m_fd this')" and
    pm: "(word_of_int p :: u64) \<noteq> - 1" and
    pl: "pos l' = word_of_int p" and
    n': "current_op_num l' = length (ops_buffer l')"
    by blast
  from ReadFully_True[OF rf] have f1: "fd_pos fd1 = fd_pos (m_fd this) + sizeof_CowOperation fmt"
    by simp
  from lseek_CUR_ok[OF ls pm] have
    p: "p = int (fd_pos fd1) + GetNextOpOffset fmt (as_CowOperation fmt bs)" and
    p0: "0 \<le> p" and p63: "p < 2 ^ 63" and f2: "fd_pos (m_fd this') = nat p"
    by simp_all
  from wf have "0 < sizeof_CowOperation fmt"
    "0 \<le> GetNextOpOffset fmt (as_CowOperation fmt bs)"
    by (simp_all add: wf_format_def)
  with f1 p f2 have lt: "fd_pos (m_fd this) < fd_pos (m_fd this')" by simp
  from p0 p63 f2 have b63: "fd_pos (m_fd this') < 2 ^ 63"
    by (simp add: nat_less_iff)
  from p0 f2 pl have "pos l' = of_nat (fd_pos (m_fd this'))" by simp
  with lt b63 n' show ?thesis by simp
qed

lemma unat_of_nat_pos: "n < 2 ^ 63 \<Longrightarrow> unat (of_nat n :: u64) = n"
  by (simp add: unsigned_of_nat take_bit_nat_eq_self)

lemma ParseOps_loop_terminates:
  assumes wf: "wf_format fmt"
  shows "current_op_num l = length (ops_buffer l) \<Longrightarrow>
         pos l = of_nat (fd_pos (m_fd this)) \<Longrightarrow> fd_pos (m_fd this) < 2 ^ 63 \<Longrightarrow>
         \<exists>res. ParseOps_loop fmt lp (this, l) = Some res"
proof (induction "unat lp - fd_pos (m_fd this)" arbitrary: this l rule: less_induct)
  case less
  show ?case
  proof (cases "pos l < lp")
    case False
    then show ?thesis by (subst ParseOps_loop.simps) simp
  next
    case True
    with less.prems(2,3) have lt: "fd_pos (m_fd this) < unat lp"
      by (simp add: word_less_nat_alt unat_of_nat_pos)
    show ?thesis
    proof (cases "ParseOps_body fmt this l")
      case (Inl e)
      with True show ?thesis by (subst ParseOps_loop.simps) simp
    next
      case (Inr t)
      obtain brk this' l' where t: "t = (brk, this', l')" by (cases t)
      show ?thesis
      proof (cases brk)
        case True
        with \<open>pos l < lp\<close> Inr t show ?thesis by (subst ParseOps_loop.simps) simp
      next
        case False
        with Inr t have b: "ParseOps_body fmt this l = Inr (False, this', l')" by simp
        from ParseOps_body_progress[OF wf b less.prems(1)] have
          g: "fd_pos (m_fd this) < fd_pos (m_fd this')" and
          h: "fd_pos (m_fd this') < 2 ^ 63" "pos l' = of_nat (fd_pos (m_fd this'))"
             "current_op_num l' = length (ops_buffer l')"
          by simp_all
        from g lt have "unat lp - fd_pos (m_fd this') < unat lp - fd_pos (m_fd this)" by simp
        from less.hyps[OF this h(3) h(2) h(1)] obtain res where
          "ParseOps_loop fmt lp (this', l') = Some res" by blast
        with \<open>pos l < lp\<close> b show ?thesis by (subst ParseOps_loop.simps) simp
      qed
    qed
  qed
qed

lemma ParseOps_loop_frame:
  assumes run: "ParseOps_loop fmt lp (this, l) = Some res"
    and n: "current_op_num l = length (ops_buffer l)"
  shows "case res of
           Inl e \<Rightarrow> e = ReadOpFailed \<or> e = LseekNextOpFailed
         | Inr (this', l') \<Rightarrow> m_fd_size this' = m_fd_size this \<and> m_header this' = m_header this"
  using run
proof (rule ParseOps_loop_rule[where I = "scan_inv (m_fd_size this) (m_header this)"])
  show "scan_inv (m_fd_size this) (m_header this) (this, l)" using n by (simp add: scan_inv_def)
next
  fix r k r' k'
  assume "scan_inv (m_fd_size this) (m_header this) (r, k)"
    "ParseOps_body fmt r k = Inr (False, r', k')"
  then show "scan_inv (m_fd_size this) (m_header this) (r', k')"
    using ParseOps_body_frame[of fmt r k False r' k'] ParseOps_body_advance[of fmt r k r' k']
    by (auto simp: scan_inv_def)
next
  fix r k r' k'
  assume "scan_inv (m_fd_size this) (m_header this) (r, k)"
    "ParseOps_body fmt r k = Inr (True, r', k')"
  then show "case Inr (r', k') of
           Inl e \<Rightarrow> e = ReadOpFailed \<or> e = LseekNextOpFailed
         | Inr (this', l') \<Rightarrow> m_fd_size this' = m_fd_size this \<and> m_header this' = m_header this"
    using ParseOps_body_frame[of fmt r k True r' k'] by (simp add: scan_inv_def)
next
  fix r k
  assume "scan_inv (m_fd_size this) (m_header this) (r, k)"
  then show "case Inr (r, k) of
           Inl e \<Rightarrow> e = ReadOpFailed \<or> e = LseekNextOpFailed
         | Inr (this', l') \<Rightarrow> m_fd_size this' = m_fd_size this \<and> m_header this' = m_header this"
    by (simp add: scan_inv_def)
next
  fix r k e
  assume "ParseOps_body fmt r k = Inl e"
  then show "case Inl e of
           Inl e \<Rightarrow> e = ReadOpFailed \<or> e = LseekNextOpFailed
         | Inr (this', l') \<Rightarrow> m_fd_size this' = m_fd_size this \<and> m_header this' = m_header this"
    using ParseOps_body_Inl[of fmt r k e] by simp
qed

lemma ParseOps_start_facts:
  assumes "sizeof_CowHeader fmt < 2 ^ 63"
  shows "pos (snd (ParseOps_start fmt this)) = of_nat (sizeof_CowHeader fmt)"
    and "fd_pos (m_fd (fst (ParseOps_start fmt this))) = sizeof_CowHeader fmt"
    and "current_op_num (snd (ParseOps_start fmt this)) =
           length (ops_buffer (snd (ParseOps_start fmt this)))"
    and "m_fd_size (fst (ParseOps_start fmt this)) = m_fd_size this"
    and "m_header (fst (ParseOps_start fmt this)) = m_header this"
  using assms by (simp_all add: ParseOps_start_def lseek_def Let_def)

lemma ParseOps_start_frame:
  "current_op_num (snd (ParseOps_start fmt this)) =
     length (ops_buffer (snd (ParseOps_start fmt this))) \<and>
   m_fd_size (fst (ParseOps_start fmt this)) = m_fd_size this \<and>
   m_header (fst (ParseOps_start fmt this)) = m_header this"
  by (simp add: ParseOps_start_def split: prod.splits)

lemma verify_footer_Inr: "verify_footer fmt this ops = Inr this' \<Longrightarrow> this' = this"
  by (auto simp: verify_footer_def Let_def split: if_splits)

lemma verify_footer_Inl:
  "verify_footer fmt this ops = Inl e \<Longrightarrow>
   e = NumOpsMismatch \<or> e = OpsSizeMismatch \<or> e = OpsChecksumMismatch"
  by (auto simp: verify_footer_def Let_def split: if_splits)

lemma ParseOps_finish_Inr:
  "ParseOps_finish fmt this ops = Inr this' \<Longrightarrow>
   m_fd_size this' = m_fd_size this \<and> m_header this' = m_header this"
  by (auto simp: ParseOps_finish_def split: sum.splits dest: verify_footer_Inr)

lemma ParseOps_finish_Inl:
  "ParseOps_finish fmt this ops = Inl e \<Longrightarrow>
   e = NumOpsMismatch \<or> e = OpsSizeMismatch \<or> e = OpsChecksumMismatch \<or>
   e = MergeOpsCheckFailed \<or> e = ReadPastEnd"
  by (auto simp: ParseOps_finish_def split: sum.splits
      dest: verify_footer_Inl trim_merged_Inl)

lemma ParseOps_Inr:
  assumes "ParseOps fmt this = Some (Inr this')"
  shows "m_fd_size this' = m_fd_size this \<and> m_header this' = m_header this"
proof -
  from assms obtain r l where
    s: "ParseOps_scan fmt this = Some (Inr (r, l))" and
    f: "ParseOps_finish fmt r (ops_buffer l) = Inr this'"
    by (auto simp: ParseOps_def split: if_splits option.splits sum.splits)
  obtain r0 l0 where s0: "ParseOps_start fmt this = (r0, l0)" by (cases "ParseOps_start fmt this")
  with ParseOps_start_frame[of fmt this] have
    n: "current_op_num l0 = length (ops_buffer l0)" and
    k: "m_fd_size r0 = m_fd_size this" "m_header r0 = m_header this" by simp_all
  from s s0 have "ParseOps_loop fmt (ParseOps_last_pos fmt this) (r0, l0) = Some (Inr (r, l))"
    by (simp add: ParseOps_scan_def)
  from ParseOps_loop_frame[OF this n] k have "m_fd_size r = m_fd_size this" "m_header r = m_header this"
    by simp_all
  with ParseOps_finish_Inr[OF f] show ?thesis by simp
qed

lemma ParseOps_Inl:
  assumes "ParseOps fmt this = Some (Inl e)"
  shows "e = LseekOpsFailed \<or> e = ReserveAborted \<or> e = ReadOpFailed \<or>
         e = LseekNextOpFailed \<or>
         e = NumOpsMismatch \<or> e = OpsSizeMismatch \<or> e = OpsChecksumMismatch \<or>
         e = MergeOpsCheckFailed \<or> e = ReadPastEnd"
proof (cases "pos (snd (ParseOps_start fmt this)) \<noteq> of_nat (sizeof_CowHeader fmt) \<or>
              (m_has_footer this \<and>
               \<not> reserve_returns fmt (num_ops (as_CowFooterOperation fmt (footer_op this))))")
  case True
  with assms show ?thesis by (auto simp: ParseOps_def split: if_splits)
next
  case False
  obtain r0 l0 where s0: "ParseOps_start fmt this = (r0, l0)" by (cases "ParseOps_start fmt this")
  with ParseOps_start_frame[of fmt this] have
    n: "current_op_num l0 = length (ops_buffer l0)" by simp
  show ?thesis
  proof (cases "ParseOps_scan fmt this")
    case None
    with False assms show ?thesis by (auto simp: ParseOps_def split: if_splits)
  next
    case (Some res)
    with s0 have run: "ParseOps_loop fmt (ParseOps_last_pos fmt this) (r0, l0) = Some res"
      by (simp add: ParseOps_scan_def)
    show ?thesis
    proof (cases res)
      case (Inl e')
      with ParseOps_loop_frame[OF run n] have "e' = ReadOpFailed \<or> e' = LseekNextOpFailed" by simp
      moreover from False assms Some Inl have "e = e'"
        by (auto simp: ParseOps_def split: if_splits)
      ultimately show ?thesis by blast
    next
      case (Inr t)
      obtain r l where "t = (r, l)" by (cases t)
      with False assms Some Inr have "ParseOps_finish fmt r (ops_buffer l) = Inl e"
        by (auto simp: ParseOps_def split: if_splits)
      from ParseOps_finish_Inl[OF this] show ?thesis by blast
    qed
  qed
qed

lemma ParseOps_scan_returns:
  assumes wf: "wf_format fmt" and h: "sizeof_CowHeader fmt < 2 ^ 63"
  shows "\<exists>res. ParseOps_scan fmt this = Some res"
proof -
  obtain r0 l0 where s0: "ParseOps_start fmt this = (r0, l0)" by (cases "ParseOps_start fmt this")
  with ParseOps_start_facts[OF h, of this] have
    "current_op_num l0 = length (ops_buffer l0)" "pos l0 = of_nat (fd_pos (m_fd r0))"
    "fd_pos (m_fd r0) < 2 ^ 63"
    using h by simp_all
  from ParseOps_loop_terminates[OF wf this, of "ParseOps_last_pos fmt this"] s0
  show ?thesis by (auto simp: ParseOps_scan_def)
qed

lemma ParseOps_returns:
  assumes wf: "wf_format fmt" and h: "sizeof_CowHeader fmt < 2 ^ 63"
  shows "\<exists>res. ParseOps fmt this = Some res"
proof -
  from ParseOps_scan_returns[OF wf h, of this]
  obtain res where "ParseOps_scan fmt this = Some res" by blast
  then show ?thesis
    by (cases res) (auto simp: ParseOps_def split: prod.splits)
qed

lemma word_of_int_diff_nat:
  "b \<le> a \<Longrightarrow> (word_of_int (int a - int b) :: u64) = word_of_int (int a) - of_nat b"
  by simp

lemma nat_int_diff: "nat (int a - int b) = a - b"
  by arith

lemma Parse_too_long:
  "\<not> length (fd_data fd) < 2 ^ 63 \<Longrightarrow> Parse fmt this fd = Some (Inl LseekEndFailed)"
  by (simp add: Parse_def lseek_def Let_def)

lemma Parse_no_header:
  "length (fd_data fd) < 2 ^ 63 \<Longrightarrow> length (fd_data fd) < sizeof_CowHeader fmt \<Longrightarrow>
   Parse fmt this fd = Some (Inl ReadHeaderFailed)"
  by (simp add: Parse_def lseek_def ReadFully_def read_def Let_def)

lemma Parse_header_error:
  assumes "length (fd_data fd) < 2 ^ 63" and "sizeof_CowHeader fmt \<le> length (fd_data fd)"
    and "header_mismatch fmt (as_CowHeader fmt (take (sizeof_CowHeader fmt) (fd_data fd)))"
  shows "Parse fmt this fd =
           Some (Inl (let h = as_CowHeader fmt (take (sizeof_CowHeader fmt) (fd_data fd))
                      in if magic h \<noteq> kCowMagicNumber fmt then HeaderMagicCorrupted
                         else if header_size h \<noteq> sizeof_CowHeader fmt then HeaderSizeUnknown
                         else if footer_size h \<noteq> sizeof_CowFooter fmt then FooterSizeUnknown
                         else HeaderVersionMismatch))"
  using assms
  by (simp add: Parse_def lseek_def ReadFully_def read_def Let_def header_mismatch_def)

lemma Parse_header_ok:
  assumes "length (fd_data fd) < 2 ^ 63" and "sizeof_CowHeader fmt \<le> length (fd_data fd)"
    and "\<not> header_mismatch fmt (as_CowHeader fmt (take (sizeof_CowHeader fmt) (fd_data fd)))"
  shows "(sizeof_CowFooter fmt \<le> length (fd_data fd) \<and>
          (\<exists>r. Parse fmt this fd = ParseOps fmt r \<and>
               m_fd_size r = of_nat (length (fd_data fd)) \<and>
               m_header r = take (sizeof_CowHeader fmt) (fd_data fd))) \<or>
         (length (fd_data fd) < sizeof_CowFooter fmt \<and>
          (Parse fmt this fd = Some (Inl FailedToReadFullFooter) \<or>
           Parse fmt this fd = Some (Inl ReadFooterFailed)))"
proof (cases "sizeof_CowFooter fmt \<le> length (fd_data fd)")
  case True
  with assms have "\<exists>r. Parse fmt this fd = ParseOps fmt r \<and>
               m_fd_size r = of_nat (length (fd_data fd)) \<and>
               m_header r = take (sizeof_CowHeader fmt) (fd_data fd)"
    apply (simp add: Parse_def lseek_def ReadFully_def read_def Let_def header_mismatch_def
        word_of_int_diff_nat nat_int_diff)
    apply (rule exI, rule conjI, rule refl)
    apply simp
    done
  with True show ?thesis by simp
next
  case False
  with assms have "Parse fmt this fd = Some (Inl FailedToReadFullFooter) \<or>
           Parse fmt this fd = Some (Inl ReadFooterFailed)"
    by (auto simp: Parse_def lseek_def ReadFully_def read_def Let_def header_mismatch_def
        nat_int_diff)
  with False show ?thesis by simp
qed

lemma Parse_Inr:
  assumes "Parse fmt this fd = Some (Inr this')"
  shows "length (fd_data fd) < 2 ^ 63" 
    and "sizeof_CowHeader fmt \<le> length (fd_data fd)"
    and "sizeof_CowFooter fmt \<le> length (fd_data fd)"
    and "\<not> header_mismatch fmt (as_CowHeader fmt (take (sizeof_CowHeader fmt) (fd_data fd)))"
    and "m_fd_size this' = of_nat (length (fd_data fd))"
    and "m_header this' = take (sizeof_CowHeader fmt) (fd_data fd)"
proof -
  show l: "length (fd_data fd) < 2 ^ 63"
    using assms Parse_too_long[of fd fmt this] by (cases "length (fd_data fd) < 2 ^ 63") simp_all
  show h: "sizeof_CowHeader fmt \<le> length (fd_data fd)"
    using assms l Parse_no_header[of fd fmt this]
    by (cases "sizeof_CowHeader fmt \<le> length (fd_data fd)") simp_all
  show m: "\<not> header_mismatch fmt (as_CowHeader fmt (take (sizeof_CowHeader fmt) (fd_data fd)))"
    using assms Parse_header_error[OF l h, of this] by auto
  from Parse_header_ok[OF l h m, of this] assms
  obtain r where f: "sizeof_CowFooter fmt \<le> length (fd_data fd)"
    and r: "Parse fmt this fd = ParseOps fmt r" "m_fd_size r = of_nat (length (fd_data fd))"
      "m_header r = take (sizeof_CowHeader fmt) (fd_data fd)"
    by auto
  show "sizeof_CowFooter fmt \<le> length (fd_data fd)" by (rule f)
  from r(1) assms have "ParseOps fmt r = Some (Inr this')" by simp
  from ParseOps_Inr[OF this] r(2,3)
  show "m_fd_size this' = of_nat (length (fd_data fd))"
    "m_header this' = take (sizeof_CowHeader fmt) (fd_data fd)" by simp_all
qed

text \<open>
  C1 (as amended). A scan that starts without a watermark and returns leaves this
  watermark. If the trailing footer region holds no footer: the value of the most recent
  Label that was followed by another record read, an inline footer included, and none if
  there is no such Label; a Label that is the last record read is not reported. If the
  trailing footer region holds a footer: the value of the last Label read. Moreover, when
  a footer is present, the iteration that reads a Label leaves that Label's value as the
  watermark. In a format in which records have a positive size and payloads a
  non-negative one, the scan returns.
\<close>

theorem label_watermark_promotion:
  assumes "ParseOps_scan fmt this = Some (Inr (this', l))" and "\<not> m_has_last_label this"
  shows "GetLastLabel this' =
           last_label_of fmt (if m_has_footer this then ops_buffer l else butlast (ops_buffer l)) \<and>
         (\<forall>r0 l0 brk r1 l1.
            ParseOps_body fmt r0 l0 = Inr (brk, r1, l1) \<and>
            current_op_num l0 = length (ops_buffer l0) \<and> m_has_footer r0 \<and>
            type (as_CowOperation fmt (last (ops_buffer l1))) = kCowLabelOp fmt \<longrightarrow>
            GetLastLabel r1 = Some (source (as_CowOperation fmt (last (ops_buffer l1))))) \<and>
         (wf_format fmt \<and> sizeof_CowHeader fmt < 2 ^ 63 \<longrightarrow>
            (\<forall>r. \<exists>res. ParseOps_scan fmt r = Some res))"
proof (intro conjI)
  let ?hf = "m_has_footer this"
  let ?Q = "\<lambda>res. case res of
                    Inl e \<Rightarrow> True
                  | Inr (r, l) \<Rightarrow> GetLastLabel r =
                      last_label_of fmt (if ?hf then ops_buffer l else butlast (ops_buffer l))"
  have i: "label_inv fmt ?hf (ParseOps_start fmt this)"
    using assms(2)
    by (simp add: label_inv_def ParseOps_start_def GetLastLabel_def last_label_of_Nil
        split: prod.splits)
  from assms(1) have run:
    "ParseOps_loop fmt (ParseOps_last_pos fmt this) (ParseOps_start fmt this) =
       Some (Inr (this', l))"
    by (simp add: ParseOps_scan_def)
  have "?Q res"
    if "ParseOps_loop fmt (ParseOps_last_pos fmt this) (ParseOps_start fmt this) = Some res"
    for res
    using that i
  proof (rule ParseOps_loop_rule)
    fix r l r' l'
    assume "label_inv fmt ?hf (r, l)" "ParseOps_body fmt r l = Inr (False, r', l')"
    then show "label_inv fmt ?hf (r', l')" by (rule label_inv_step)
  next
    fix r l r' l'
    assume "label_inv fmt ?hf (r, l)" "ParseOps_body fmt r l = Inr (True, r', l')"
    from label_inv_break[OF this] show "?Q (Inr (r', l'))" by simp
  next
    fix r l
    assume "label_inv fmt ?hf (r, l)"
    then show "?Q (Inr (r, l))" by (cases ?hf) (simp_all add: label_inv_def)
  next
    fix e :: error
    show "?Q (Inl e)" by simp
  qed
  from this[OF run] show "GetLastLabel this' =
           last_label_of fmt (if ?hf then ops_buffer l else butlast (ops_buffer l))"
    by simp
next
  show "\<forall>r0 l0 brk r1 l1.
            ParseOps_body fmt r0 l0 = Inr (brk, r1, l1) \<and>
            current_op_num l0 = length (ops_buffer l0) \<and> m_has_footer r0 \<and>
            type (as_CowOperation fmt (last (ops_buffer l1))) = kCowLabelOp fmt \<longrightarrow>
            GetLastLabel r1 = Some (source (as_CowOperation fmt (last (ops_buffer l1))))"
  proof (intro allI impI, elim conjE)
    fix r0 l0 brk r1 l1
    assume b: "ParseOps_body fmt r0 l0 = Inr (brk, r1, l1)"
      and n: "current_op_num l0 = length (ops_buffer l0)"
      and hf: "m_has_footer r0"
      and t: "type (as_CowOperation fmt (last (ops_buffer l1))) = kCowLabelOp fmt"
    from ParseOps_body_labels[OF b n] obtain bs where
      bs: "ops_buffer l1 = ops_buffer l0 @ [bs]" and
      r: "if type (as_CowOperation fmt bs) = kCowLabelOp fmt
            then \<not> brk \<and>
                 (if m_has_footer r0
                  then GetLastLabel r1 = Some (source (as_CowOperation fmt bs)) \<and>
                       next_last_label l1 = next_last_label l0
                  else GetLastLabel r1 = promoted r0 l0 \<and>
                       next_last_label l1 = Some (source (as_CowOperation fmt bs)))
            else GetLastLabel r1 = promoted r0 l0 \<and>
                 next_last_label l1 = next_last_label l0 \<and>
                 (brk \<longleftrightarrow> type (as_CowOperation fmt bs) = kCowFooterOp fmt)"
      by blast
    from bs t hf r show "GetLastLabel r1 = Some (source (as_CowOperation fmt (last (ops_buffer l1))))"
      by simp
  qed
next
  show "wf_format fmt \<and> sizeof_CowHeader fmt < 2 ^ 63 \<longrightarrow>
          (\<forall>r. \<exists>res. ParseOps_scan fmt r = Some res)"
    using ParseOps_scan_returns[of fmt] by blast
qed

theorem label_watermark_promotion_witness:
  "\<exists>this' l.
     ParseOps_scan cow_v1 (entering_v1 file_two_labels) = Some (Inr (this', l)) \<and>
     \<not> m_has_last_label (entering_v1 file_two_labels) \<and>
     \<not> m_has_footer (entering_v1 file_two_labels) \<and>
     ops_buffer l = [label_op 1, label_op 2] \<and>
     GetLastLabel this' = Some 1"
proof -
  have "\<exists>this' l.
     ParseOps_scan cow_v1 (entering_v1 file_two_labels) = Some (Inr (this', l)) \<and>
     ops_buffer l = [label_op 1, label_op 2]"
    by (simp add: file_two_labels_def eval_entering eval_io eval_format eval_files)
  then obtain this' l where
    s: "ParseOps_scan cow_v1 (entering_v1 file_two_labels) = Some (Inr (this', l))" and
    o: "ops_buffer l = [label_op 1, label_op 2]" by blast
  have h: "\<not> m_has_last_label (entering_v1 file_two_labels)"
    by (simp add: entering_v1_def CowReader_new_def)
  have f: "\<not> m_has_footer (entering_v1 file_two_labels)"
    by (simp add: file_two_labels_def entering_v1_def CowReader_new_def eval_format eval_files)
  from label_watermark_promotion[OF s h, THEN conjunct1] f o
  have "GetLastLabel this' = Some 1"
    by (simp add: last_label_of_def label_ops_def eval_format eval_files)
  with s h f o show ?thesis by blast
qed

text \<open>
  C1 as the specification states it fails on a file without footer whose records are two
  Labels: the last record read is a Label, and the watermark is not absent but the value
  of the first Label.
\<close>

theorem label_last_record_counterexample:
  "map_option (map_sum id m_ops) (parse_v1 file_two_labels) = Some (Inr [label_op 1, label_op 2]) \<and>
   type (as_CowOperation cow_v1 (label_op 2)) = kCowLabelOp cow_v1 \<and>
   map_option (map_sum id GetFooter) (parse_v1 file_two_labels) = Some (Inr None) \<and>
   map_option (map_sum id GetLastLabel) (parse_v1 file_two_labels) = Some (Inr (Some 1))"
  by (simp add: file_two_labels_def eval_parse eval_io eval_format eval_files
      GetFooter_def GetLastLabel_def)

text \<open>
  C2. The specification says that a footer record met during the scan is not counted as
  an operation. The source decrements \<open>current_op_num\<close> for it, commenting that the
  record is not considered an operation, but the vector keeps the element, and it is the
  size of the vector that is compared with \<open>num_ops\<close> and \<open>ops_size\<close>: a file whose
  footer counts its one operation is rejected, and one whose footer counts itself as well
  is accepted, with the footer record among the operations returned.
\<close>

theorem inline_footer_counted_as_operation:
  "parse_v1 file_inline_footer = Some (Inl NumOpsMismatch) \<and>
   map_option (map_sum id m_ops) (parse_v1 file_inline_footer_counted) =
     Some (Inr [replace_op 4 48, footer_rec 40 2])"
  by (simp add: file_inline_footer_def file_inline_footer_counted_def
      eval_parse eval_io eval_format eval_files)
text \<open>
  C8. On a file that is long enough to hold a header: if the magic number, the header
  size, the footer size, or the major or minor version of the header differs from what
  the format prescribes, \<open>Parse\<close> fails with the message of the first test that the
  header fails, a format error; if they all agree (and the format lets the scan advance),
  \<open>Parse\<close> returns and its result is none of these four failures; and whenever
  \<open>Parse\<close> succeeds, the header agrees with the format and \<open>GetHeader\<close> returns the
  first \<open>sizeof(CowHeader)\<close> bytes of the file as they are.
\<close>

theorem header_validation:
  assumes "length (fd_data fd) < 2 ^ 63" and "sizeof_CowHeader fmt \<le> length (fd_data fd)"
  shows "(header_mismatch fmt (as_CowHeader fmt (take (sizeof_CowHeader fmt) (fd_data fd))) \<longrightarrow>
            (\<exists>e. Parse fmt this fd = Some (Inl e) \<and>
                 e \<in> {HeaderMagicCorrupted, HeaderSizeUnknown, FooterSizeUnknown,
                       HeaderVersionMismatch} \<and>
                 error_class e = Some FormatError)) \<and>
         (\<not> header_mismatch fmt (as_CowHeader fmt (take (sizeof_CowHeader fmt) (fd_data fd))) \<and>
          wf_format fmt \<longrightarrow>
            (\<exists>res. Parse fmt this fd = Some res \<and>
                   res \<notin> Inl ` {HeaderMagicCorrupted, HeaderSizeUnknown, FooterSizeUnknown,
                                 HeaderVersionMismatch})) \<and>
         (\<forall>this'. Parse fmt this fd = Some (Inr this') \<longrightarrow>
            \<not> header_mismatch fmt (as_CowHeader fmt (take (sizeof_CowHeader fmt) (fd_data fd))) \<and>
            GetHeader this' = take (sizeof_CowHeader fmt) (fd_data fd))"
proof (intro conjI impI allI)
  assume "header_mismatch fmt (as_CowHeader fmt (take (sizeof_CowHeader fmt) (fd_data fd)))"
  from Parse_header_error[OF assms this, of this]
  show "\<exists>e. Parse fmt this fd = Some (Inl e) \<and>
                 e \<in> {HeaderMagicCorrupted, HeaderSizeUnknown, FooterSizeUnknown,
                       HeaderVersionMismatch} \<and>
                 error_class e = Some FormatError"
    by (simp add: Let_def)
next
  assume a: "\<not> header_mismatch fmt (as_CowHeader fmt (take (sizeof_CowHeader fmt) (fd_data fd))) \<and>
          wf_format fmt"
  then have m: "\<not> header_mismatch fmt (as_CowHeader fmt (take (sizeof_CowHeader fmt) (fd_data fd)))"
    and wf: "wf_format fmt" by simp_all
  from assms have h63: "sizeof_CowHeader fmt < 2 ^ 63" by simp
  from Parse_header_ok[OF assms m, of this]
  show "\<exists>res. Parse fmt this fd = Some res \<and>
                   res \<notin> Inl ` {HeaderMagicCorrupted, HeaderSizeUnknown, FooterSizeUnknown,
                                 HeaderVersionMismatch}"
  proof (elim disjE conjE exE)
    fix r
    assume p: "Parse fmt this fd = ParseOps fmt r"
    from ParseOps_returns[OF wf h63, of r] obtain res where res: "ParseOps fmt r = Some res"
      by blast
    have "res \<notin> Inl ` {HeaderMagicCorrupted, HeaderSizeUnknown, FooterSizeUnknown,
                                 HeaderVersionMismatch}"
    proof (cases res)
      case (Inl e)
      with res ParseOps_Inl[of fmt r e] show ?thesis by auto
    next
      case (Inr x)
      then show ?thesis by auto
    qed
    with p res show ?thesis by simp
  next
    assume "Parse fmt this fd = Some (Inl FailedToReadFullFooter)"
    then show ?thesis by auto
  next
    assume "Parse fmt this fd = Some (Inl ReadFooterFailed)"
    then show ?thesis by auto
  qed
next
  fix this'
  assume "Parse fmt this fd = Some (Inr this')"
  from Parse_Inr(4)[OF this]
  show "\<not> header_mismatch fmt (as_CowHeader fmt (take (sizeof_CowHeader fmt) (fd_data fd)))" .
next
  fix this'
  assume "Parse fmt this fd = Some (Inr this')"
  from Parse_Inr(6)[OF this]
  show "GetHeader this' = take (sizeof_CowHeader fmt) (fd_data fd)" by (simp add: GetHeader_def)
qed

text \<open>
  C7. On a reader that parsed its file, \<open>GetRawBytes\<close> with an offset inside the header
  region, or with a range \<open>[offset, offset + len)\<close> that runs past the start of the
  trailing footer region, or with \<open>offset + len\<close> overflowing 64 bits, fails with
  ``invalid data offset'', a bounds failure and not an I/O failure, and leaves the
  reader with its descriptor as they were: no seek and no read took place.
\<close>

theorem GetRawBytes_bounds:
  assumes p: "Parse fmt r0 fd = Some (Inr this)"
    and bad: "unat offset < sizeof_CowHeader fmt \<or>
              length (fd_data fd) - sizeof_CowFooter fmt < unat offset + unat len \<or>
              2 ^ 64 \<le> unat offset + unat len"
  shows "GetRawBytes fmt this offset len = (Inl InvalidDataOffset, this) \<and>
         error_class InvalidDataOffset = Some BoundsError \<and>
         error_class InvalidDataOffset \<noteq> Some IoError"
proof -
  let ?S = "length (fd_data fd)"
  let ?F = "?S - sizeof_CowFooter fmt"
  note P = Parse_Inr[OF p]
  from P(1) have S64: "?S < 2 ^ 64" by simp
  have uS: "unat (of_nat ?S :: u64) = ?S"
    using P(1) by (simp add: unat_of_nat_pos)
  from P(1,2) have uh: "unat (of_nat (sizeof_CowHeader fmt) :: u64) = sizeof_CowHeader fmt"
    by (simp add: unat_of_nat_pos)
  from P(1,3) have uf: "unat (of_nat (sizeof_CowFooter fmt) :: u64) = sizeof_CowFooter fmt"
    by (simp add: unat_of_nat_pos)
  have F: "(of_nat ?S :: u64) - of_nat (sizeof_CowFooter fmt) = of_nat ?F"
    using P(3) by simp
  have uF: "unat (of_nat ?F :: u64) = ?F"
    using P(1) by (simp add: unat_of_nat_pos)
  have c: "offset < of_nat (sizeof_CowHeader fmt) \<or>
         offset \<ge> m_fd_size this - of_nat (sizeof_CowFooter fmt) \<or>
         len \<ge> m_fd_size this \<or>
         offset + len > m_fd_size this - of_nat (sizeof_CowFooter fmt)"
  proof (cases "unat offset < sizeof_CowHeader fmt")
    case True
    then show ?thesis by (simp add: word_less_nat_alt uh)
  next
    case h: False
    show ?thesis
    proof (cases "?F \<le> unat offset")
      case True
      then show ?thesis by (simp add: P(5) F word_le_nat_alt uF)
    next
      case o: False
      show ?thesis
      proof (cases "?S \<le> unat len")
        case True
        then show ?thesis by (simp add: P(5) word_le_nat_alt uS)
      next
        case l: False
        from o l P(1) have "unat offset + unat len < 2 ^ 64" by simp
        then have s: "unat (offset + len) = unat offset + unat len"
          using unat_add_lem[of offset len] by simp
        from bad h \<open>unat offset + unat len < 2 ^ 64\<close>
        have "?F < unat offset + unat len" by simp
        with s show ?thesis by (simp add: P(5) F word_less_nat_alt uF)
      qed
    qed
  qed
  then show ?thesis by (simp add: GetRawBytes_def)
qed

theorem header_validation_witness:
  "length (fd_data (open_fd file_one_replace)) < 2 ^ 63 \<and>
   sizeof_CowHeader cow_v1 \<le> length (fd_data (open_fd file_one_replace)) \<and>
   \<not> header_mismatch cow_v1
       (as_CowHeader cow_v1 (take (sizeof_CowHeader cow_v1) (fd_data (open_fd file_one_replace)))) \<and>
   wf_format cow_v1 \<and>
   (\<exists>this'. parse_v1 file_one_replace = Some (Inr this') \<and> GetHeader this' = header_v1 0) \<and>
   header_mismatch cow_v1
       (as_CowHeader cow_v1 (take (sizeof_CowHeader cow_v1) (fd_data (open_fd file_zeros)))) \<and>
   (\<exists>e. parse_v1 file_zeros = Some (Inl e) \<and> error_class e = Some FormatError)"
proof -
  let ?fd = "open_fd file_one_replace"
  have h1: "length (fd_data ?fd) < 2 ^ 63"
    and h2: "sizeof_CowHeader cow_v1 \<le> length (fd_data ?fd)"
    by (simp_all add: file_one_replace_def open_fd_def eval_format eval_files)
  have m: "\<not> header_mismatch cow_v1
       (as_CowHeader cow_v1 (take (sizeof_CowHeader cow_v1) (fd_data ?fd)))"
    by (simp add: header_mismatch_def file_one_replace_def open_fd_def eval_format eval_files)
  have wf: "wf_format cow_v1" by (simp add: wf_format_def eval_format)
  have t: "take (sizeof_CowHeader cow_v1) (fd_data ?fd) = header_v1 0"
    by (simp add: file_one_replace_def open_fd_def eval_format eval_files)
  have "\<exists>this'. parse_v1 file_one_replace = Some (Inr this')"
    by (simp add: file_one_replace_def eval_parse eval_io eval_format eval_files)
  then obtain this' where p: "Parse cow_v1 (CowReader_new cow_v1) ?fd = Some (Inr this')"
    by (auto simp: parse_v1_def)
  from header_validation[OF h1 h2, of "CowReader_new cow_v1"] p t
  have g: "GetHeader this' = header_v1 0" by simp
  let ?fz = "open_fd file_zeros"
  have z1: "length (fd_data ?fz) < 2 ^ 63"
    and z2: "sizeof_CowHeader cow_v1 \<le> length (fd_data ?fz)"
    by (simp_all add: file_zeros_def open_fd_def eval_format)
  have zm: "header_mismatch cow_v1
       (as_CowHeader cow_v1 (take (sizeof_CowHeader cow_v1) (fd_data ?fz)))"
    by (simp add: header_mismatch_def file_zeros_def open_fd_def eval_format
        replicate_numeral_unfold)
  from header_validation[OF z1 z2, of "CowReader_new cow_v1"] zm
  have e: "\<exists>e. parse_v1 file_zeros = Some (Inl e) \<and> error_class e = Some FormatError"
    by (auto simp: parse_v1_def)
  from h1 h2 m wf p g zm e show ?thesis by (auto simp: parse_v1_def)
qed

theorem GetRawBytes_bounds_witness:
  "\<exists>this. parse_v1 file_one_replace = Some (Inr this) \<and>
     length (fd_data (open_fd file_one_replace)) - sizeof_CowFooter cow_v1 <
       unat (48 :: u64) + unat (10 :: u64) \<and>
     unat (10 :: u64) < sizeof_CowHeader cow_v1 \<and>
     (2 :: nat) ^ 64 \<le> unat (18446744073709551615 :: u64) + unat (48 :: u64) \<and>
     GetRawBytes cow_v1 this 48 10 = (Inl InvalidDataOffset, this) \<and>
     GetRawBytes cow_v1 this 10 4 = (Inl InvalidDataOffset, this) \<and>
     GetRawBytes cow_v1 this 18446744073709551615 48 = (Inl InvalidDataOffset, this)"
proof -
  have "\<exists>this. parse_v1 file_one_replace = Some (Inr this)"
    by (simp add: file_one_replace_def eval_parse eval_io eval_format eval_files)
  then obtain this where
    p: "Parse cow_v1 (CowReader_new cow_v1) (open_fd file_one_replace) = Some (Inr this)"
    by (auto simp: parse_v1_def)
  have a: "length (fd_data (open_fd file_one_replace)) - sizeof_CowFooter cow_v1 <
             unat (48 :: u64) + unat (10 :: u64)"
    by (simp add: file_one_replace_def open_fd_def eval_format eval_files)
  have b: "unat (10 :: u64) < sizeof_CowHeader cow_v1" by (simp add: eval_format)
  from GetRawBytes_bounds[OF p, of 48 10] a
  have g1: "GetRawBytes cow_v1 this 48 10 = (Inl InvalidDataOffset, this)" by blast
  from GetRawBytes_bounds[OF p, of 10 4] b
  have g2: "GetRawBytes cow_v1 this 10 4 = (Inl InvalidDataOffset, this)" by blast
  have c: "(2 :: nat) ^ 64 \<le> unat (18446744073709551615 :: u64) + unat (48 :: u64)" by simp
  from GetRawBytes_bounds[OF p, of 18446744073709551615 48] c
  have g3: "GetRawBytes cow_v1 this 18446744073709551615 48 = (Inl InvalidDataOffset, this)"
    by blast
  from p a b c g1 g2 g3 show ?thesis by (auto simp: parse_v1_def)
qed
subsection \<open>Iterators and payload decoding\<close>

lemma drain_from:
  "n \<le> length ops \<Longrightarrow>
   drain \<lparr>it_ops = ops, op_iter = n\<rparr> acc = Some (Inr (acc @ drop n ops))"
proof (induction "length ops - n" arbitrary: n acc)
  case 0
  then show ?case by (subst drain.simps) (simp add: CowOpIter_Done_def)
next
  case (Suc k)
  then have n: "n < length ops" by simp
  from Suc(1)[of "Suc n" "acc @ [ops ! n]"] Suc(2) n
  have "drain \<lparr>it_ops = ops, op_iter = Suc n\<rparr> (acc @ [ops ! n]) =
          Some (Inr (acc @ [ops ! n] @ drop (Suc n) ops))" by simp
  with n show ?case
    by (subst drain.simps)
       (simp add: CowOpIter_Done_def CowOpIter_Get_def CowOpIter_Next_def Cons_nth_drop_Suc)
qed

lemma rdrain_from:
  "n \<le> length ops \<Longrightarrow>
   rdrain \<lparr>rit_ops = ops, op_riter = n\<rparr> acc = Some (Inr (acc @ drop n (rev ops)))"
proof (induction "length ops - n" arbitrary: n acc)
  case 0
  then show ?case by (subst rdrain.simps) (simp add: CowOpReverseIter_Done_def)
next
  case (Suc k)
  then have n: "n < length ops" by simp
  then have r: "ops ! (length ops - 1 - n) = rev ops ! n" by (simp add: rev_nth)
  from Suc(1)[of "Suc n" "acc @ [rev ops ! n]"] Suc(2) n
  have "rdrain \<lparr>rit_ops = ops, op_riter = Suc n\<rparr> (acc @ [rev ops ! n]) =
          Some (Inr (acc @ [rev ops ! n] @ drop (Suc n) (rev ops)))" by simp
  with n r show ?case
    by (subst rdrain.simps)
       (simp add: CowOpReverseIter_Done_def CowOpReverseIter_Get_def CowOpReverseIter_Next_def
          Cons_nth_drop_Suc)
qed

text \<open>
  C10. For the forward and the reverse iterator over the operations of a reader, at every
  cursor position up to the size of the sequence: \<open>Done\<close> holds exactly at the size;
  there \<open>Get\<close> and \<open>Next\<close> abort on their \<open>CHECK\<close> and read nothing; before it,
  \<open>Get\<close> returns the element at the cursor (counted from the end for the reverse
  iterator) and \<open>Next\<close> moves the cursor by one. Both iterators start at position 0,
  and a full drain returns: it visits the operations in their order in the sequence for
  the forward iterator, and in the reverse order for the reverse iterator.
\<close>

theorem op_iterators:
  "(\<forall>n \<le> length (m_ops this).
      (CowOpIter_Done \<lparr>it_ops = m_ops this, op_iter = n\<rparr> \<longleftrightarrow> n = length (m_ops this)) \<and>
      (CowOpReverseIter_Done \<lparr>rit_ops = m_ops this, op_riter = n\<rparr> \<longleftrightarrow> n = length (m_ops this)) \<and>
      (n = length (m_ops this) \<longrightarrow>
         CowOpIter_Get \<lparr>it_ops = m_ops this, op_iter = n\<rparr> = Inl NotDoneCheckFailed \<and>
         CowOpIter_Next \<lparr>it_ops = m_ops this, op_iter = n\<rparr> = Inl NotDoneCheckFailed \<and>
         CowOpReverseIter_Get \<lparr>rit_ops = m_ops this, op_riter = n\<rparr> = Inl NotDoneCheckFailed \<and>
         CowOpReverseIter_Next \<lparr>rit_ops = m_ops this, op_riter = n\<rparr> = Inl NotDoneCheckFailed) \<and>
      (n < length (m_ops this) \<longrightarrow>
         CowOpIter_Get \<lparr>it_ops = m_ops this, op_iter = n\<rparr> = Inr (m_ops this ! n) \<and>
         CowOpIter_Next \<lparr>it_ops = m_ops this, op_iter = n\<rparr> =
           Inr \<lparr>it_ops = m_ops this, op_iter = n + 1\<rparr> \<and>
         CowOpReverseIter_Get \<lparr>rit_ops = m_ops this, op_riter = n\<rparr> =
           Inr (rev (m_ops this) ! n) \<and>
         CowOpReverseIter_Next \<lparr>rit_ops = m_ops this, op_riter = n\<rparr> =
           Inr \<lparr>rit_ops = m_ops this, op_riter = n + 1\<rparr>)) \<and>
   GetOpIter this = \<lparr>it_ops = m_ops this, op_iter = 0\<rparr> \<and>
   GetRevOpIter this = \<lparr>rit_ops = m_ops this, op_riter = 0\<rparr> \<and>
   drain (GetOpIter this) [] = Some (Inr (m_ops this)) \<and>
   rdrain (GetRevOpIter this) [] = Some (Inr (rev (m_ops this)))"
proof (intro conjI allI impI)
  show "drain (GetOpIter this) [] = Some (Inr (m_ops this))"
    using drain_from[of 0 "m_ops this" "[]"] by (simp add: GetOpIter_def CowOpIter_new_def)
  show "rdrain (GetRevOpIter this) [] = Some (Inr (rev (m_ops this)))"
    using rdrain_from[of 0 "m_ops this" "[]"]
    by (simp add: GetRevOpIter_def CowOpReverseIter_new_def)
qed (simp_all add: GetOpIter_def CowOpIter_new_def GetRevOpIter_def CowOpReverseIter_new_def
      CowOpIter_Done_def CowOpIter_Get_def CowOpIter_Next_def rev_nth
      CowOpReverseIter_Done_def CowOpReverseIter_Get_def CowOpReverseIter_Next_def)

theorem op_iterators_witness:
  "CowOpIter_Get \<lparr>it_ops = [label_op 1, label_op 2], op_iter = 1\<rparr> = Inr (label_op 2) \<and>
   CowOpReverseIter_Get \<lparr>rit_ops = [label_op 1, label_op 2], op_riter = 0\<rparr> = Inr (label_op 2) \<and>
   CowOpIter_Next \<lparr>it_ops = [label_op 1, label_op 2], op_iter = 2\<rparr> = Inl NotDoneCheckFailed \<and>
   drain (GetOpIter ((CowReader_new cow_v1)\<lparr>m_ops := [label_op 1, label_op 2]\<rparr>)) [] =
     Some (Inr [label_op 1, label_op 2]) \<and>
   rdrain (GetRevOpIter ((CowReader_new cow_v1)\<lparr>m_ops := [label_op 1, label_op 2]\<rparr>)) [] =
     Some (Inr [label_op 2, label_op 1])"
proof -
  let ?r = "(CowReader_new cow_v1)\<lparr>m_ops := [label_op 1, label_op 2]\<rparr>"
  have m: "m_ops ?r = [label_op 1, label_op 2]" by simp
  note t = op_iterators[of ?r, unfolded m]
  have n2: "CowOpIter_Next \<lparr>it_ops = [label_op 1, label_op 2], op_iter = 2\<rparr> =
              Inl NotDoneCheckFailed"
    using t[THEN conjunct1, rule_format, of 2] by simp
  have g1: "CowOpIter_Get \<lparr>it_ops = [label_op 1, label_op 2], op_iter = 1\<rparr> = Inr (label_op 2)"
    using t[THEN conjunct1, rule_format, of 1] by simp
  have r0: "CowOpReverseIter_Get \<lparr>rit_ops = [label_op 1, label_op 2], op_riter = 0\<rparr> =
              Inr (label_op 2)"
    using t[THEN conjunct1, rule_format, of 0] by simp
  note u = t[THEN conjunct2, THEN conjunct2, THEN conjunct2]
  have d: "drain (GetOpIter ?r) [] = Some (Inr [label_op 1, label_op 2])"
    "rdrain (GetRevOpIter ?r) [] = Some (Inr [label_op 2, label_op 1])"
    using u[THEN conjunct1] u[THEN conjunct2] by simp_all
  from n2 g1 r0 d show ?thesis by simp
qed

text \<open>
  C9. For an operation whose compression tag is none of \<open>kCowCompressNone\<close>,
  \<open>kCowCompressGz\<close> and \<open>kCowCompressBrotli\<close>, \<open>ReadData\<close> fails with ``Unknown
  compression type'', whatever the decompressors do: they are not run, the reader and its
  descriptor are as before (nothing was sought or read), and so is the sink.
\<close>

theorem unknown_compression_rejected:
  assumes "compression (as_CowOperation fmt op) \<noteq> kCowCompressNone fmt"
    and "compression (as_CowOperation fmt op) \<noteq> kCowCompressGz fmt"
    and "compression (as_CowOperation fmt op) \<noteq> kCowCompressBrotli fmt"
  shows "ReadData fmt Decompress this op sink = (Inl UnknownCompressionType, this, sink) \<and>
         error_class UnknownCompressionType = Some FormatError"
  using assms by (simp add: ReadData_def)

theorem unknown_compression_rejected_witness:
  "compression (as_CowOperation cow_v1 [2, 3, 4, 0, 0, 0, 0, 0, 0, 0, 0, 0, 48, 0, 0, 0, 0, 0, 0, 0]) \<noteq>
     kCowCompressNone cow_v1 \<and>
   compression (as_CowOperation cow_v1 [2, 3, 4, 0, 0, 0, 0, 0, 0, 0, 0, 0, 48, 0, 0, 0, 0, 0, 0, 0]) \<noteq>
     kCowCompressGz cow_v1 \<and>
   compression (as_CowOperation cow_v1 [2, 3, 4, 0, 0, 0, 0, 0, 0, 0, 0, 0, 48, 0, 0, 0, 0, 0, 0, 0]) \<noteq>
     kCowCompressBrotli cow_v1 \<and>
   ReadData cow_v1 (\<lambda>d rd s bsz r k. (True, r, k)) (entering_v1 file_one_replace)
     [2, 3, 4, 0, 0, 0, 0, 0, 0, 0, 0, 0, 48, 0, 0, 0, 0, 0, 0, 0] ([] :: byte list) =
     (Inl UnknownCompressionType, entering_v1 file_one_replace, [])"
proof -
  let ?op = "[2, 3, 4, 0, 0, 0, 0, 0, 0, 0, 0, 0, 48, 0, 0, 0, 0, 0, 0, 0] :: byte list"
  have c: "compression (as_CowOperation cow_v1 ?op) \<noteq> kCowCompressNone cow_v1"
    "compression (as_CowOperation cow_v1 ?op) \<noteq> kCowCompressGz cow_v1"
    "compression (as_CowOperation cow_v1 ?op) \<noteq> kCowCompressBrotli cow_v1"
    by (simp_all add: eval_format)
  from unknown_compression_rejected[OF c, where Decompress = "\<lambda>d rd s bsz r k. (True, r, k)"
      and this = "entering_v1 file_one_replace" and sink = "[] :: byte list"] c
  show ?thesis by simp
qed

end
